theory Spec2Isabelle
  imports
    Complex_Main
    "HOL-Library.Char_ord"
    "HOL-Library.List_Lexorder"
begin

section \<open>The DEP map service (pylib/depbackend/auto/mapper.py)\<close>

text \<open>
  The development follows \<^verbatim>\<open>mapper.py\<close>: the request environment, the two helpers
  \<^verbatim>\<open>get_ts_ts2\<close> and \<^verbatim>\<open>get_mckey\<close>, and \<^verbatim>\<open>make_map\<close> with its database reads, its
  colour bins and its annotations. Python exceptions are values of \<open>error\<close>; a function
  that can raise returns \<open>error + 'a\<close>. Python floats and SQL numerics are modelled as
  \<open>real\<close>, with \<open>None\<close> of \<open>real option\<close> standing for NaN or SQL NULL.
\<close>

subsection \<open>Exceptions\<close>

datatype error = ValueError | OverflowError | TypeError | KeyError | IndexError | NoDataFound

subsection \<open>Calendar dates (datetime.date)\<close>

text \<open>
  A \<^verbatim>\<open>datetime.date\<close> is year, month and day; the constructor raises OverflowError for a
  component that is no C int and ValueError unless \<open>1 \<le> year \<le> 9999\<close>, \<open>1 \<le> month \<le> 12\<close>
  and the day exists in that month. Dates compare as (year, month, day).
\<close>

datatype date = Date (d_year: nat) (d_month: nat) (d_day: nat)

definition is_leap :: "nat \<Rightarrow> bool" where
  "is_leap y = (y mod 4 = 0 \<and> (y mod 100 \<noteq> 0 \<or> y mod 400 = 0))"

definition days_in_month :: "nat \<Rightarrow> nat \<Rightarrow> nat" where
  "days_in_month y m =
     (if m = 2 then (if is_leap y then 29 else 28)
      else if m = 4 \<or> m = 6 \<or> m = 9 \<or> m = 11 then 30 else 31)"

definition valid_date :: "date \<Rightarrow> bool" where
  "valid_date d =
     (1 \<le> d_year d \<and> d_year d \<le> 9999 \<and> 1 \<le> d_month d \<and> d_month d \<le> 12 \<and>
      1 \<le> d_day d \<and> d_day d \<le> days_in_month (d_year d) (d_month d))"

definition c_int :: "int \<Rightarrow> bool" where
  "c_int i = (- 2147483648 \<le> i \<and> i \<le> 2147483647)"

definition mk_date :: "int \<Rightarrow> int \<Rightarrow> int \<Rightarrow> error + date" where
  "mk_date y m d =
     (if \<not> (c_int y \<and> c_int m \<and> c_int d) then Inl OverflowError
      else if 1 \<le> y \<and> y \<le> 9999 \<and> 1 \<le> m \<and> m \<le> 12 \<and> 1 \<le> d \<and>
              nat d \<le> days_in_month (nat y) (nat m)
      then Inr (Date (nat y) (nat m) (nat d))
      else Inl ValueError)"

definition date_le :: "date \<Rightarrow> date \<Rightarrow> bool" where
  "date_le a b =
     (d_year a < d_year b \<or>
      (d_year a = d_year b \<and>
       (d_month a < d_month b \<or> (d_month a = d_month b \<and> d_day a \<le> d_day b))))"

definition date_less :: "date \<Rightarrow> date \<Rightarrow> bool" where
  "date_less a b = (date_le a b \<and> a \<noteq> b)"

text \<open>The order of two dates by month and day alone, the year left aside.\<close>

definition md_le :: "date \<Rightarrow> date \<Rightarrow> bool" where
  "md_le a b = (d_month a < d_month b \<or> (d_month a = d_month b \<and> d_day a \<le> d_day b))"

text \<open>The day after a date (\<^verbatim>\<open>d + timedelta(days=1)\<close>, below date.max).\<close>

definition next_day :: "date \<Rightarrow> date" where
  "next_day d =
     (if d_day d < days_in_month (d_year d) (d_month d)
      then Date (d_year d) (d_month d) (d_day d + 1)
      else if d_month d < 12 then Date (d_year d) (d_month d + 1) 1
      else Date (d_year d + 1) 1 1)"

subsection \<open>Text formatting\<close>

text \<open>
  \<^verbatim>\<open>%m\<close> and \<^verbatim>\<open>%d\<close> are decimals zero-padded to two digits; \<^verbatim>\<open>%Y\<close> is the year in
  decimal as the C library prints it, without padding for a year below 1000;
  \<^verbatim>\<open>{scenario}\<close> is the decimal text of an int; \<^verbatim>\<open>{huc}\<close> of a missing region is the text
  \<^verbatim>\<open>None\<close>.
\<close>

definition digit :: "nat \<Rightarrow> char" where
  "digit k = ''0123456789'' ! (k mod 10)"

definition pad2 :: "nat \<Rightarrow> string" where
  "pad2 n = [digit (n div 10), digit n]"

fun str_nat :: "nat \<Rightarrow> string" where
  "str_nat n = (if n < 10 then [digit n] else str_nat (n div 10) @ [digit n])"

declare str_nat.simps [simp del]

definition fmt_Ymd :: "date \<Rightarrow> string" where
  "fmt_Ymd d = str_nat (d_year d) @ pad2 (d_month d) @ pad2 (d_day d)"

definition fmt_md :: "date \<Rightarrow> string" where
  "fmt_md d = pad2 (d_month d) @ pad2 (d_day d)"

definition str_int :: "int \<Rightarrow> string" where
  "str_int i = (if i < 0 then CHR ''-'' # str_nat (nat (- i)) else str_nat (nat i))"

definition str_opt :: "string option \<Rightarrow> string" where
  "str_opt s = (case s of None \<Rightarrow> ''None'' | Some t \<Rightarrow> t)"

subsection \<open>The request environment (Schema)\<close>

record environ =
  dpi :: int
  year :: int
  month :: int
  day :: int
  year2 :: "int option"
  month2 :: "int option"
  day2 :: "int option"
  scenario :: int
  v :: string
  huc :: "string option"
  zoom :: real
  overview :: bool
  averaged :: bool
  progressbar :: bool
  cruse :: bool
  iowa :: bool
  mn :: bool

subsection \<open>get_ts_ts2 and get_mckey\<close>

definition get_ts_ts2 :: "environ \<Rightarrow> error + (date \<times> date)" where
  "get_ts_ts2 env =
     (let year2' = (case year2 env of None \<Rightarrow> year env | Some y \<Rightarrow> y);
          month2' = (case month2 env of None \<Rightarrow> month env | Some m \<Rightarrow> m);
          day2' = (case day2 env of None \<Rightarrow> day env | Some d \<Rightarrow> d)
      in case mk_date (year env) (month env) (day env) of
           Inl e \<Rightarrow> Inl e
         | Inr ts \<Rightarrow>
             (case mk_date year2' month2' day2' of
                Inl e \<Rightarrow> Inl e
              | Inr ts2 \<Rightarrow> Inr (ts, ts2)))"

text \<open>
  The key of a map request. \<open>float_str\<close> is Python's text of a float (\<^verbatim>\<open>{environ['zoom']}\<close>),
  which this development leaves open.
\<close>

definition map_key :: "string option \<Rightarrow> date \<Rightarrow> date \<Rightarrow> int \<Rightarrow> string \<Rightarrow> string" where
  "map_key h ts ts2 s var =
     ''/auto/map.py/'' @ str_opt h @ ''/'' @ fmt_Ymd ts @ ''/'' @ fmt_Ymd ts2 @ ''/'' @
     str_int s @ ''/'' @ var"

definition overview_key :: "(real \<Rightarrow> string) \<Rightarrow> string option \<Rightarrow> real \<Rightarrow> string" where
  "overview_key float_str h z = ''/auto/map.py/'' @ str_opt h @ ''/'' @ float_str z"

definition get_mckey :: "(real \<Rightarrow> string) \<Rightarrow> environ \<Rightarrow> error + string" where
  "get_mckey float_str env =
     (case get_ts_ts2 env of
        Inl e \<Rightarrow> Inl e
      | Inr (ts, ts2) \<Rightarrow>
          (let key = map_key (huc env) ts ts2 (scenario env) (v env)
           in if overview env then Inr (overview_key float_str (huc env) (zoom env))
              else Inr key))"

subsection \<open>The variable tables\<close>

definition V2MULTI :: "string \<rightharpoonup> real" where
  "V2MULTI =
     [''avg_loss'' \<mapsto> 4.463, ''qc_precip'' \<mapsto> 1 / 25.4, ''avg_delivery'' \<mapsto> 4.463,
      ''avg_runoff'' \<mapsto> 1 / 25.4, ''dt'' \<mapsto> 1, ''slp'' \<mapsto> 1]"

definition V2UNITS :: "string \<rightharpoonup> string" where
  "V2UNITS =
     [''avg_loss'' \<mapsto> ''tons/acre'', ''qc_precip'' \<mapsto> ''inches'',
      ''avg_delivery'' \<mapsto> ''tons/acre'', ''avg_runoff'' \<mapsto> ''inches'',
      ''dt'' \<mapsto> ''categorical'', ''slp'' \<mapsto> ''ratio'']"

subsection \<open>The database\<close>

text \<open>
  The tables the queries of \<^verbatim>\<open>make_map\<close> read. \<open>'g\<close> is the type of a geometry. A metric
  column may be NULL (\<open>None\<close>). \<open>last_date_0\<close> is the value of the property of that key:
  \<open>None\<close> when the row is absent, \<open>Some None\<close> for a NULL value, else its text.
  \<open>scenarios\<close> maps an id to its (huc12_scenario, label).
\<close>

record 'g huc12_row =
  simple_geom :: 'g
  huc_12 :: string
  h_scenario :: int
  states :: string
  dominant_tillage :: "real option"
  average_slope_ratio :: "real option"

record result_row =
  r_huc_12 :: string
  r_scenario :: int
  valid :: date
  avg_loss :: "real option"
  qc_precip :: "real option"
  avg_delivery :: "real option"
  avg_runoff :: "real option"

record 'g conn =
  scenarios :: "int \<rightharpoonup> int \<times> string option"
  last_date_0 :: "string option option"
  huc12 :: "'g huc12_row list"
  results_by_huc12 :: "result_row list"

text \<open>What the session did, in order: each statement sent to the database, and each call
  of the bin locator.\<close>

datatype event =
    SelectHuc12Scenario
  | SelectLastDate
  | SelectCategorical
  | SelectAveraged
  | SelectPeriod
  | SelectLabel
  | CallPrettyBins real real

subsection \<open>SQL building blocks\<close>

fun non_null :: "'a option list \<Rightarrow> 'a list" where
  "non_null [] = []"
| "non_null (None # xs) = non_null xs"
| "non_null (Some x # xs) = x # non_null xs"

text \<open>\<^verbatim>\<open>sum(col)\<close> adds the non-NULL values of a group and is NULL when there is none.\<close>

definition sql_sum :: "real option list \<Rightarrow> real option" where
  "sql_sum xs = (case non_null xs of [] \<Rightarrow> None | y # ys \<Rightarrow> Some (sum_list (y # ys)))"

definition coalesce :: "real option \<Rightarrow> real \<Rightarrow> real" where
  "coalesce x d = (case x of None \<Rightarrow> d | Some y \<Rightarrow> y)"

text \<open>The column \<^verbatim>\<open>{v}\<close> of results_by_huc12 (the four metric columns).\<close>

definition column :: "string \<Rightarrow> result_row \<Rightarrow> real option" where
  "column var r =
     (if var = ''avg_loss'' then avg_loss r
      else if var = ''qc_precip'' then qc_precip r
      else if var = ''avg_delivery'' then avg_delivery r
      else avg_runoff r)"

text \<open>\<^verbatim>\<open>SELECT huc_12, agg as d ... GROUP by huc_12\<close>: one row for each huc_12 present.\<close>

definition group_by_huc_12 ::
    "(real option list \<Rightarrow> real option) \<Rightarrow> string \<Rightarrow> result_row list \<Rightarrow> (string \<times> real option) list" where
  "group_by_huc_12 agg var rows =
     map (\<lambda>k. (k, agg (map (column var) (filter (\<lambda>r. r_huc_12 r = k) rows))))
       (remdups (map r_huc_12 rows))"

text \<open>\<^verbatim>\<open>huc12 i LEFT JOIN data d ON (i.huc_12 = d.huc_12)\<close>: every match of a region, or
  the region once with a NULL \<open>d\<close> when nothing matches.\<close>

definition left_join ::
    "'g huc12_row list \<Rightarrow> (string \<times> real option) list \<Rightarrow> ('g huc12_row \<times> real option) list" where
  "left_join regions ds =
     concat (map (\<lambda>i. case filter (\<lambda>d. fst d = huc_12 i) ds of
                          [] \<Rightarrow> [(i, None)]
                        | m # ms \<Rightarrow> map (\<lambda>d. (i, snd d)) (m # ms)) regions)"

text \<open>\<^verbatim>\<open>states ~* 'IA'\<close>: the text contains the pattern, letter case ignored.\<close>

definition upper :: "char \<Rightarrow> char" where
  "upper c = (if CHR ''a'' \<le> c \<and> c \<le> CHR ''z'' then char_of (of_char c - (32::nat)) else c)"

fun icontains :: "string \<Rightarrow> string \<Rightarrow> bool" where
  "icontains pat [] = (pat = [])"
| "icontains pat (c # cs) =
     (map upper (take (length pat) (c # cs)) = map upper pat \<or> icontains pat cs)"

text \<open>The region scope \<^verbatim>\<open>huclimiter\<close> as a predicate on a row of huc12.\<close>

definition huclimiter :: "string option \<Rightarrow> environ \<Rightarrow> 'g huc12_row \<Rightarrow> bool" where
  "huclimiter h env i =
     ((case h of
         None \<Rightarrow> True
       | Some s \<Rightarrow>
           if length s = 8 then take 8 (huc_12 i) = s
           else if length s = 12 then huc_12 i = s
           else True) \<and>
      (if iowa env then icontains ''IA'' (states i) else True) \<and>
      (if mn env then icontains ''MN'' (states i) else True))"

subsection \<open>The three reads of make_map\<close>

definition query_categorical ::
    "'g conn \<Rightarrow> string option \<Rightarrow> int \<Rightarrow> string \<Rightarrow> environ \<Rightarrow> ('g \<times> real option) list" where
  "query_categorical conn h huc12_scenario var env =
     map (\<lambda>i. (simple_geom i,
                if var = ''dt'' then dominant_tillage i else average_slope_ratio i))
       (filter (\<lambda>i. h_scenario i = huc12_scenario \<and> huclimiter h env i) (huc12 conn))"

definition averaged_rows :: "'g conn \<Rightarrow> int \<Rightarrow> date \<Rightarrow> date \<Rightarrow> result_row list" where
  "averaged_rows conn scen ts ts2 =
     filter (\<lambda>r. r_scenario r = scen \<and>
                 fmt_md ts \<le> fmt_md (valid r) \<and> fmt_md (valid r) \<le> fmt_md ts2 \<and>
                 date_le ts (valid r) \<and> date_le (valid r) ts2)
       (results_by_huc12 conn)"

definition period_rows :: "'g conn \<Rightarrow> int \<Rightarrow> date \<Rightarrow> date \<Rightarrow> result_row list" where
  "period_rows conn scen ts ts2 =
     filter (\<lambda>r. r_scenario r = scen \<and> date_le ts (valid r) \<and> date_le (valid r) ts2)
       (results_by_huc12 conn)"

definition joined ::
    "'g conn \<Rightarrow> string option \<Rightarrow> int \<Rightarrow> real \<Rightarrow> environ \<Rightarrow> (string \<times> real option) list \<Rightarrow>
     ('g \<times> real option) list" where
  "joined conn h huc12_scenario dbcol env ds =
     map (\<lambda>(i, d). (simple_geom i, Some (coalesce d 0 * dbcol)))
       (filter (\<lambda>(i, d). h_scenario i = huc12_scenario \<and> huclimiter h env i)
          (left_join (huc12 conn) ds))"

definition query_averaged ::
    "'g conn \<Rightarrow> string option \<Rightarrow> date \<Rightarrow> date \<Rightarrow> int \<Rightarrow> int \<Rightarrow> string \<Rightarrow> real \<Rightarrow> environ \<Rightarrow>
     ('g \<times> real option) list" where
  "query_averaged conn h ts ts2 scen huc12_scenario var dbcol env =
     joined conn h huc12_scenario dbcol env
       (group_by_huc_12 (\<lambda>xs. map_option (\<lambda>s. s / 10) (sql_sum xs)) var
          (averaged_rows conn scen ts ts2))"

definition query_period ::
    "'g conn \<Rightarrow> string option \<Rightarrow> date \<Rightarrow> date \<Rightarrow> int \<Rightarrow> int \<Rightarrow> string \<Rightarrow> real \<Rightarrow> environ \<Rightarrow>
     ('g \<times> real option) list" where
  "query_period conn h ts ts2 scen huc12_scenario var dbcol env =
     joined conn h huc12_scenario dbcol env
       (group_by_huc_12 sql_sum var (period_rows conn scen ts ts2))"

text \<open>Lines 231 to 293: which read runs, and the frame it returns.\<close>

definition read_postgis ::
    "'g conn \<Rightarrow> string option \<Rightarrow> date \<Rightarrow> date \<Rightarrow> int \<Rightarrow> int \<Rightarrow> string \<Rightarrow> real \<Rightarrow> environ \<Rightarrow>
     event \<times> ('g \<times> real option) list" where
  "read_postgis conn h ts ts2 scen huc12_scenario var dbcol env =
     (if var = ''dt'' \<or> var = ''slp''
      then (SelectCategorical, query_categorical conn h huc12_scenario var env)
      else if averaged env
      then (SelectAveraged, query_averaged conn h ts ts2 scen huc12_scenario var dbcol env)
      else (SelectPeriod, query_period conn h ts ts2 scen huc12_scenario var dbcol env))"

subsection \<open>Library functions the map uses\<close>

text \<open>
  \<^verbatim>\<open>make_map\<close> calls into pyiem, pandas and the standard library, which are not among
  the sources. Their results are parameters of the model: \<open>RAMPS\<close> is the table of colour
  ramps (\<^verbatim>\<open>RAMPS["english"][0]\<close> is \<open>RAMPS lib ''english'' 0\<close>), \<open>pretty_bins\<close> the bin
  locator, \<open>percentile95\<close> the 95th percentile of the values of a numeric column (NaN
  being \<open>None\<close>), and \<open>strptime\<close> the date that \<^verbatim>\<open>datetime.strptime(s, "%Y-%m-%d")\<close> reads
  from a text, \<open>None\<close> when it raises ValueError.
\<close>

record lib =
  RAMPS :: "string \<Rightarrow> nat \<Rightarrow> real list"
  pretty_bins :: "real \<Rightarrow> real \<Rightarrow> real list"
  percentile95 :: "real option list \<Rightarrow> real option"
  strptime :: "string \<rightharpoonup> date"

text \<open>
  Line 317, \<^verbatim>\<open>df["data"].describe(percentiles=[0.95])["95%"]\<close>: a column without a single
  value comes back from the database as a column of objects, whose description has no
  entry of that name, and the lookup raises KeyError; otherwise the values are numbers and
  the entry is their percentile.
\<close>

definition describe_95 :: "lib \<Rightarrow> real option list \<Rightarrow> error + real option" where
  "describe_95 lib data =
     (if non_null data = [] then Inl KeyError else Inr (percentile95 lib data))"

text \<open>\<^verbatim>\<open>df["data"].mean()\<close>: the mean of the values that are not missing, NaN without any.\<close>

definition mean :: "real option list \<Rightarrow> real option" where
  "mean xs =
     (case non_null xs of [] \<Rightarrow> None | y # ys \<Rightarrow> Some (sum_list (y # ys) / real (length (y # ys))))"

text \<open>\<^verbatim>\<open>(ts2 - ts).days\<close> through the proleptic ordinal of a date.\<close>

definition days_before_month :: "nat \<Rightarrow> nat \<Rightarrow> nat" where
  "days_before_month y m = sum_list (map (days_in_month y) [1..<m])"

definition toordinal :: "date \<Rightarrow> int" where
  "toordinal d =
     (let y = d_year d - 1
      in int (y * 365 + y div 4 + y div 400 + days_before_month (d_year d) (d_month d) + d_day d)
         - int (y div 100))"

subsection \<open>Colour bins (lines 311 to 324)\<close>

definition categorical_bins :: "string \<Rightarrow> real list \<Rightarrow> real list" where
  "categorical_bins var bins =
     (let bins1 = (if var = ''dt'' then map real [1..<8] else bins)
      in if var = ''slp'' then [0, 0.01, 0.03, 0.05, 0.07, 0.1, 0.5] else bins1)"

definition select_bins ::
    "lib \<Rightarrow> string \<Rightarrow> date \<Rightarrow> date \<Rightarrow> real option list \<Rightarrow> (error + real list) \<times> event list" where
  "select_bins lib var ts ts2 data =
     (let bins = (if ts = ts2 then RAMPS lib ''english'' 0 else RAMPS lib ''english'' 1)
      in case describe_95 lib data of
           Inl e \<Rightarrow> (Inl e, [])
         | Inr None \<Rightarrow> (Inr (categorical_bins var bins), [])
         | Inr (Some p95) \<Rightarrow>
             if bins = [] then (Inl IndexError, [])
             else if p95 > last bins then
               (let bins' = pretty_bins lib 0 p95
                in if bins' = [] then (Inl IndexError, [CallPrettyBins 0 p95])
                   else (Inr (categorical_bins var (bins'[0 := 0.01])), [CallPrettyBins 0 p95]))
             else (Inr (categorical_bins var bins), []))"

text \<open>
  Modelled from the spec: the boundary normalisation (matplotlib's BoundaryNorm, which is
  not among the sources) maps a value to a discrete colour index through the ordered bin
  edges. A value \<open>x\<close> is in bin \<open>i\<close> when \<open>edge i \<le> x < edge (i + 1)\<close>; the lowest bin
  lies between the first two edges, and a value below the first edge is in no bin.
\<close>

definition in_lowest_bin :: "real list \<Rightarrow> real \<Rightarrow> bool" where
  "in_lowest_bin bins x = (case bins of a # b # _ \<Rightarrow> a \<le> x \<and> x < b | _ \<Rightarrow> False)"

fun in_some_bin :: "real list \<Rightarrow> real \<Rightarrow> bool" where
  "in_some_bin (a # b # bs) x = ((a \<le> x \<and> x < b) \<or> in_some_bin (b # bs) x)"
| "in_some_bin _ x = False"

subsection \<open>Annotations\<close>

text \<open>\<^verbatim>\<open>label_scenario\<close>: the text drawn, if any, and the statement it sends.\<close>

definition label_scenario :: "'g conn \<Rightarrow> int \<Rightarrow> string option \<times> event list" where
  "label_scenario conn scen =
     (if scen = 0 then (None, [])
      else case scenarios conn scen of
             None \<Rightarrow> (None, [SelectLabel])
           | Some (_, label) \<Rightarrow>
               (Some (''Scenario '' @ str_int scen @ '': '' @ str_opt label), [SelectLabel]))"

text \<open>
  Lines 350 to 352: \<open>avgval\<close> is Python's \<^verbatim>\<open>None\<close> (\<open>None\<close>) unless the progress bar is asked
  for, and then the mean, which may be NaN (\<open>Some None\<close>).
\<close>

definition avgval_of :: "environ \<Rightarrow> real option list \<Rightarrow> real option option" where
  "avgval_of env data = (if progressbar env then Some (mean data) else None)"

text \<open>Lines 383 to 385: the depth of the badge; dividing \<^verbatim>\<open>None\<close> raises TypeError.\<close>

definition cruse_depth :: "environ \<Rightarrow> real option option \<Rightarrow> error + real option option" where
  "cruse_depth env avgval =
     (if cruse env
      then (case avgval of
              None \<Rightarrow> Inl TypeError
            | Some a \<Rightarrow> Inr (Some (map_option (\<lambda>x. x / 5.0) a)))
      else Inr None)"

subsection \<open>make_map\<close>

datatype colormap = James | DepErosion

text \<open>
  What the image shows: the polygons with their data, the bin edges, the colour map, the
  units of the colour bar, the scenario label, the progress bar (mean and bar length), the
  badge (\<open>None\<close>: no badge; \<open>Some d\<close>: the depth \<open>d\<close>), and the resolution. The title,
  the projection and the map bounds are left out.
\<close>

record 'g rendering =
  polygons :: "('g \<times> real option) list"
  bins :: "real list"
  cmap :: colormap
  units :: string
  label :: "string option"
  bar :: "(real option \<times> real) option"
  badge :: "real option option"
  out_dpi :: int

definition floor_date :: date where
  "floor_date = Date 2007 1 1"

text \<open>
  Lines 199 to 209: the last date with data, whose text is parsed (a NULL value raises
  TypeError, a text that is no date ValueError), and the test on the window.
\<close>

definition lastts :: "lib \<Rightarrow> 'g conn \<Rightarrow> error + date" where
  "lastts lib conn =
     (case last_date_0 conn of
        None \<Rightarrow> Inr (Date 2007 1 1)
      | Some None \<Rightarrow> Inl TypeError
      | Some (Some s) \<Rightarrow> (case strptime lib s of None \<Rightarrow> Inl ValueError | Some d \<Rightarrow> Inr d))"

definition no_data_yet :: "date \<Rightarrow> date \<Rightarrow> date \<Rightarrow> bool" where
  "no_data_yet marker ts ts2 =
     (date_less marker ts \<or> date_less marker ts2 \<or> date_less ts floor_date)"

text \<open>Lines 294 to 401, once the frame \<open>df\<close> is read.\<close>

definition draw ::
    "lib \<Rightarrow> 'g conn \<Rightarrow> date \<Rightarrow> date \<Rightarrow> int \<Rightarrow> string \<Rightarrow> environ \<Rightarrow> ('g \<times> real option) list \<Rightarrow>
     (error + 'g rendering) \<times> event list" where
  "draw lib conn ts ts2 scen var env df =
     (if df = [] then (Inl NoDataFound, [])
      else case select_bins lib var ts ts2 (map snd df) of
        (Inl e, evs) \<Rightarrow> (Inl e, evs)
      | (Inr bins', evs) \<Rightarrow>
          (let (lbl, evs2) = label_scenario conn scen
           in case V2UNITS var of
                None \<Rightarrow> (Inl KeyError, evs @ evs2)
              | Some u \<Rightarrow>
                  (let avgval = avgval_of env (map snd df)
                   in case cruse_depth env avgval of
                        Inl e \<Rightarrow> (Inl e, evs @ evs2)
                      | Inr depth \<Rightarrow>
                          (Inr \<lparr> polygons = df,
                                 bins = bins',
                                 cmap = (if var = ''qc_precip'' \<or> var = ''avg_runoff''
                                         then James else DepErosion),
                                 units = u @ (if ts \<noteq> ts2 \<and> averaged env then ''/yr'' else []),
                                 label = lbl,
                                 bar = map_option
                                         (\<lambda>a. (a, real_of_int (toordinal ts2 - toordinal ts)
                                                    / 365.0 * 0.698)) avgval,
                                 badge = depth,
                                 out_dpi = dpi env \<rparr>,
                           evs @ evs2))))"

definition make_map ::
    "lib \<Rightarrow> 'g conn \<Rightarrow> string option \<Rightarrow> date \<Rightarrow> date \<Rightarrow> int \<Rightarrow> string \<Rightarrow> environ \<Rightarrow>
     (error + 'g rendering) \<times> event list" where
  "make_map lib conn h ts ts2 scen var env =
     (case scenarios conn scen of
        None \<Rightarrow> (Inl TypeError, [SelectHuc12Scenario])
      | Some (huc12_scenario, _) \<Rightarrow>
          (case lastts lib conn of
             Inl e \<Rightarrow> (Inl e, [SelectHuc12Scenario, SelectLastDate])
           | Inr marker \<Rightarrow>
               if no_data_yet marker ts ts2
               then (Inl NoDataFound, [SelectHuc12Scenario, SelectLastDate])
               else case V2MULTI var of
                      None \<Rightarrow> (Inl KeyError, [SelectHuc12Scenario, SelectLastDate])
                    | Some dbcol \<Rightarrow>
                        (let (q, df) =
                               read_postgis conn h ts ts2 scen huc12_scenario var dbcol env;
                             (res, evs) = draw lib conn ts ts2 scen var env df
                         in (res, [SelectHuc12Scenario, SelectLastDate, q] @ evs))))"

subsection \<open>Sample inputs\<close>

text \<open>
  A small library and store on which the definitions are run in the examples below: two
  ramps, a locator that halves the range, the largest value in the place of the percentile,
  a parser that knows the one date text of the store, and two regions with a few daily
  rows. Geometries are numbers.
\<close>

definition demo_lib :: lib where
  "demo_lib =
     \<lparr> RAMPS = (\<lambda>name i. if i = 0 then [0.05, 0.25, 0.5, 1, 2, 5] else [1, 2, 5, 10, 20, 50]),
       pretty_bins = (\<lambda>lo hi. [lo, (lo + hi) / 2, hi]),
       percentile95 = (\<lambda>xs. case non_null xs of [] \<Rightarrow> None | y # ys \<Rightarrow> Some (fold max ys y)),
       strptime = [''2020-06-30'' \<mapsto> Date 2020 6 30] \<rparr>"

definition demo_float_str :: "real \<Rightarrow> string" where
  "demo_float_str z = str_int \<lfloor>z\<rfloor> @ ''.0''"

definition demo_regions :: "nat huc12_row list" where
  "demo_regions =
     [\<lparr> simple_geom = 1, huc_12 = ''070801050306'', h_scenario = 0, states = ''IA'',
        dominant_tillage = Some 6, average_slope_ratio = Some 0.04 \<rparr>,
      \<lparr> simple_geom = 2, huc_12 = ''070801050307'', h_scenario = 0, states = ''IA'',
        dominant_tillage = Some 2, average_slope_ratio = Some 0.02 \<rparr>]"

definition demo_rows :: "result_row list" where
  "demo_rows =
     [\<lparr> r_huc_12 = ''070801050306'', r_scenario = 0, valid = Date 2020 6 1,
        avg_loss = Some 2, qc_precip = Some 25.4, avg_delivery = Some 1, avg_runoff = None \<rparr>,
      \<lparr> r_huc_12 = ''070801050306'', r_scenario = 0, valid = Date 2020 6 2,
        avg_loss = Some 3, qc_precip = Some 50.8, avg_delivery = None, avg_runoff = None \<rparr>,
      \<lparr> r_huc_12 = ''070801050306'', r_scenario = 0, valid = Date 2019 6 1,
        avg_loss = Some 10, qc_precip = None, avg_delivery = None, avg_runoff = None \<rparr>]"

definition demo_conn :: "nat conn" where
  "demo_conn =
     \<lparr> scenarios = [0 \<mapsto> (0, None)],
       last_date_0 = Some (Some ''2020-06-30''),
       huc12 = demo_regions,
       results_by_huc12 = demo_rows \<rparr>"

definition demo_env :: environ where
  "demo_env =
     \<lparr> dpi = 100, year = 2020, month = 6, day = 1, year2 = None, month2 = None, day2 = None,
       scenario = 0, v = ''avg_loss'', huc = Some ''070801050306'', zoom = 10,
       overview = False, averaged = False, progressbar = False, cruse = False,
       iowa = False, mn = False \<rparr>"

section \<open>Properties\<close>

subsection \<open>Digits and padded numbers\<close>

lemma of_char_digit: "of_char (digit k) = (48 + k mod 10 :: nat)"
proof -
  have "k mod 10 < 10" by simp
  then have "k mod 10 \<in> {0,1,2,3,4,5,6,7,8,9}" by (simp; arith)
  then show ?thesis unfolding digit_def by (elim insertE emptyE) simp_all
qed

lemma digit_less_iff: "digit a < digit b \<longleftrightarrow> a mod 10 < b mod 10"
  by (simp add: less_char_def of_char_digit)

lemma digit_eq_iff: "digit a = digit b \<longleftrightarrow> a mod 10 = b mod 10"
proof
  assume "digit a = digit b"
  then have "(of_char (digit a) :: nat) = of_char (digit b)" by simp
  then show "a mod 10 = b mod 10" by (simp add: of_char_digit)
next
  assume "a mod 10 = b mod 10"
  then show "digit a = digit b" by (simp add: digit_def)
qed

lemma lex_le_aux:
  fixes qa ra qb rb :: nat
  assumes "ra < 10" "rb < 10"
  shows "(qa < qb \<or> qa = qb \<and> ra \<le> rb) \<longleftrightarrow> 10 * qa + ra \<le> 10 * qb + rb"
  using assms by linarith

lemma two_digits_le:
  fixes a b :: nat
  shows "(a div 10 < b div 10 \<or> a div 10 = b div 10 \<and> a mod 10 \<le> b mod 10) \<longleftrightarrow> a \<le> b"
  using lex_le_aux [of "a mod 10" "b mod 10" "a div 10" "b div 10"] by simp

lemma two_digits_eq:
  fixes a b :: nat
  shows "(a div 10 = b div 10 \<and> a mod 10 = b mod 10) \<longleftrightarrow> a = b"
  by (metis div_mult_mod_eq)

lemma pad2_le_iff:
  assumes "a < 100" "b < 100"
  shows "pad2 a \<le> pad2 b \<longleftrightarrow> a \<le> b"
proof -
  have "a div 10 < 10" "b div 10 < 10" using assms by simp_all
  then have "pad2 a \<le> pad2 b \<longleftrightarrow>
      (a div 10 < b div 10 \<or> a div 10 = b div 10 \<and> a mod 10 \<le> b mod 10)"
    unfolding pad2_def by (auto simp add: digit_less_iff digit_eq_iff)
  then show ?thesis by (simp only: two_digits_le)
qed

lemma pad2_eq_iff:
  assumes "a < 100" "b < 100"
  shows "pad2 a = pad2 b \<longleftrightarrow> a = b"
proof -
  have "a div 10 < 10" "b div 10 < 10" using assms by simp_all
  then have "pad2 a = pad2 b \<longleftrightarrow> (a div 10 = b div 10 \<and> a mod 10 = b mod 10)"
    unfolding pad2_def by (simp add: digit_eq_iff)
  then show ?thesis by (simp only: two_digits_eq)
qed

subsection \<open>The text of numbers and dates\<close>

lemma digit_not_slash: "digit k \<noteq> CHR ''/''"
proof
  assume "digit k = CHR ''/''"
  then have "(of_char (digit k) :: nat) = of_char (CHR ''/'')" by simp
  then show False by (simp add: of_char_digit)
qed

lemma digit_not_minus: "digit k \<noteq> CHR ''-''"
proof
  assume "digit k = CHR ''-''"
  then have "(of_char (digit k) :: nat) = of_char (CHR ''-'')" by simp
  then show False by (simp add: of_char_digit)
qed

lemma str_nat_digits: "c \<in> set (str_nat n) \<Longrightarrow> \<exists>k. c = digit k"
proof (induction n rule: str_nat.induct)
  case (1 n)
  show ?case
  proof (cases "n < 10")
    case True
    with "1.prems" show ?thesis by (auto simp add: str_nat.simps [of n])
  next
    case False
    with "1.prems" "1.IH" show ?thesis by (auto simp add: str_nat.simps [of n])
  qed
qed

lemma str_nat_not_Nil: "str_nat n \<noteq> []"
  by (simp add: str_nat.simps [of n])

lemma str_nat_inj: "str_nat m = str_nat n \<Longrightarrow> m = n"
proof (induction m arbitrary: n rule: str_nat.induct)
  case (1 m)
  show ?case
  proof (cases "m < 10")
    case m: True
    show ?thesis
    proof (cases "n < 10")
      case True
      with m "1.prems" have "digit m = digit n"
        by (simp add: str_nat.simps [of m] str_nat.simps [of n])
      with m True show ?thesis by (simp add: digit_eq_iff)
    next
      case False
      with m "1.prems" have "str_nat (n div 10) = []"
        by (simp add: str_nat.simps [of m] str_nat.simps [of n])
      then show ?thesis by (simp add: str_nat_not_Nil)
    qed
  next
    case m: False
    show ?thesis
    proof (cases "n < 10")
      case True
      with m "1.prems" have "str_nat (m div 10) = []"
        by (simp add: str_nat.simps [of m] str_nat.simps [of n])
      then show ?thesis by (simp add: str_nat_not_Nil)
    next
      case False
      with m "1.prems" have "str_nat (m div 10) = str_nat (n div 10)" "digit m = digit n"
        by (simp_all add: str_nat.simps [of m] str_nat.simps [of n])
      with m "1.IH" have "m div 10 = n div 10 \<and> m mod 10 = n mod 10"
        by (simp add: digit_eq_iff)
      then show ?thesis by (rule iffD1 [OF two_digits_eq])
    qed
  qed
qed

lemma str_nat_no_minus: "CHR ''-'' \<notin> set (str_nat n)"
proof
  assume "CHR ''-'' \<in> set (str_nat n)"
  then obtain k where "CHR ''-'' = digit k" using str_nat_digits by blast
  then show False using digit_not_minus [of k] by simp
qed

lemma str_nat_no_slash: "CHR ''/'' \<notin> set (str_nat n)"
proof
  assume "CHR ''/'' \<in> set (str_nat n)"
  then obtain k where "CHR ''/'' = digit k" using str_nat_digits by blast
  then show False using digit_not_slash [of k] by simp
qed

lemma hd_str_nat: "hd (str_nat n) \<noteq> CHR ''-''"
proof (cases "str_nat n")
  case Nil
  then show ?thesis by (simp add: str_nat_not_Nil)
next
  case (Cons c cs)
  then show ?thesis using str_nat_no_minus [of n] by auto
qed

lemma str_int_inj: "str_int i = str_int j \<Longrightarrow> i = j"
proof -
  assume eq: "str_int i = str_int j"
  show "i = j"
  proof (cases "i < 0")
    case i: True
    show ?thesis
    proof (cases "j < 0")
      case True
      with i eq have "str_nat (nat (- i)) = str_nat (nat (- j))" by (simp add: str_int_def)
      then have "nat (- i) = nat (- j)" by (rule str_nat_inj)
      with i True show ?thesis by simp
    next
      case False
      with i eq have "CHR ''-'' # str_nat (nat (- i)) = str_nat (nat j)"
        by (simp add: str_int_def)
      then have "hd (str_nat (nat j)) = hd (CHR ''-'' # str_nat (nat (- i)))" by simp
      then show ?thesis using hd_str_nat [of "nat j"] by simp
    qed
  next
    case i: False
    show ?thesis
    proof (cases "j < 0")
      case True
      with i eq have "str_nat (nat i) = CHR ''-'' # str_nat (nat (- j))"
        by (simp add: str_int_def)
      then have "hd (str_nat (nat i)) = hd (CHR ''-'' # str_nat (nat (- j)))" by simp
      then show ?thesis using hd_str_nat [of "nat i"] by simp
    next
      case False
      with i eq have "str_nat (nat i) = str_nat (nat j)" by (simp add: str_int_def)
      then have "nat i = nat j" by (rule str_nat_inj)
      with i False show ?thesis by simp
    qed
  qed
qed

lemma str_int_no_slash: "CHR ''/'' \<notin> set (str_int i)"
  using str_nat_no_slash by (simp add: str_int_def)

lemma slash_not_digit: "CHR ''/'' \<noteq> digit k"
  using digit_not_slash [of k] by simp

lemma fmt_Ymd_inj:
  assumes "valid_date a" "valid_date b" "fmt_Ymd a = fmt_Ymd b"
  shows "a = b"
proof -
  have "length (pad2 (d_month a) @ pad2 (d_day a)) = length (pad2 (d_month b) @ pad2 (d_day b))"
    by (simp add: pad2_def)
  with assms(3) have y: "str_nat (d_year a) = str_nat (d_year b)"
    and md: "pad2 (d_month a) @ pad2 (d_day a) = pad2 (d_month b) @ pad2 (d_day b)"
    unfolding fmt_Ymd_def by simp_all
  from md have "pad2 (d_month a) = pad2 (d_month b)" "pad2 (d_day a) = pad2 (d_day b)"
    by (simp_all add: pad2_def)
  moreover have "d_month a < 100" "d_month b < 100"
    using assms(1,2) by (simp_all add: valid_date_def)
  moreover have "d_day a < 100" "d_day b < 100"
    using assms(1,2) by (auto simp add: valid_date_def days_in_month_def split: if_splits)
  ultimately have "d_month a = d_month b" "d_day a = d_day b"
    by (simp_all add: pad2_eq_iff)
  moreover have "d_year a = d_year b" using y by (rule str_nat_inj)
  ultimately show ?thesis by (simp add: date.expand)
qed

lemma fmt_Ymd_no_slash: "CHR ''/'' \<notin> set (fmt_Ymd d)"
  using str_nat_no_slash by (simp add: fmt_Ymd_def pad2_def slash_not_digit)

lemma split_at_first:
  "c \<notin> set a \<Longrightarrow> c \<notin> set b \<Longrightarrow> a @ c # x = b @ c # y \<Longrightarrow> a = b \<and> x = y"
proof (induction a arbitrary: b)
  case Nil
  then show ?case by (cases b) auto
next
  case (Cons e a)
  then show ?case by (cases b) auto
qed

lemma split_at_last:
  assumes "c \<notin> set v1" "c \<notin> set v2" "xs @ c # v1 = ys @ c # v2"
  shows "xs = ys \<and> v1 = v2"
proof -
  from assms(3) have "rev (xs @ c # v1) = rev (ys @ c # v2)" by simp
  then have eq: "rev v1 @ c # rev xs = rev v2 @ c # rev ys" by simp
  have "c \<notin> set (rev v1)" "c \<notin> set (rev v2)" using assms(1,2) by simp_all
  then have "rev v1 = rev v2 \<and> rev xs = rev ys"
    using eq by (rule split_at_first)
  then show ?thesis by simp
qed

subsection \<open>The order of dates\<close>

lemma date_le_refl: "date_le a a" by (simp add: date_le_def)
lemma date_le_trans: "date_le a b \<Longrightarrow> date_le b c \<Longrightarrow> date_le a c"
  unfolding date_le_def by auto
lemma date_le_antisym: "date_le a b \<Longrightarrow> date_le b a \<Longrightarrow> a = b"
  unfolding date_le_def by (cases a; cases b) auto
lemma date_less_iff_not_le: "date_less a b \<longleftrightarrow> \<not> date_le b a"
  unfolding date_less_def date_le_def by (cases a; cases b) auto
lemma date_less_next_day: "date_less d (next_day d)"
  unfolding date_less_def date_le_def next_day_def by (cases d) auto

lemma mk_date_valid: "mk_date y m d = Inr a \<Longrightarrow> valid_date a"
  unfolding mk_date_def valid_date_def by (auto split: if_splits)

text \<open>
  C9. Two requests that are not overview requests and differ only in the flags averaged,
  iowa, mn, progressbar, cruse or in dpi get the same result from get_mckey; the key is made
  of the region, the resolved dates, the scenario and the variable alone.
\<close>

theorem get_mckey_ignores_flags:
  assumes "\<not> overview env"
  shows "get_mckey float_str
           (env\<lparr>averaged := a, iowa := i, mn := m, progressbar := p, cruse := c, dpi := d\<rparr>)
         = get_mckey float_str env \<and>
         get_mckey float_str env =
           (case get_ts_ts2 env of
              Inl e \<Rightarrow> Inl e
            | Inr (ts, ts2) \<Rightarrow> Inr (map_key (huc env) ts ts2 (scenario env) (v env)))"
proof -
  have "get_ts_ts2
          (env\<lparr>averaged := a, iowa := i, mn := m, progressbar := p, cruse := c, dpi := d\<rparr>)
        = get_ts_ts2 env"
    by (simp add: get_ts_ts2_def cong: option.case_cong)
  then have "get_mckey float_str
           (env\<lparr>averaged := a, iowa := i, mn := m, progressbar := p, cruse := c, dpi := d\<rparr>)
         = get_mckey float_str env"
    by (simp add: get_mckey_def Let_def split: sum.splits prod.splits)
  moreover have "get_mckey float_str env =
           (case get_ts_ts2 env of
              Inl e \<Rightarrow> Inl e
            | Inr (ts, ts2) \<Rightarrow> Inr (map_key (huc env) ts ts2 (scenario env) (v env)))"
    using assms by (simp add: get_mckey_def split: sum.splits)
  ultimately show ?thesis by simp
qed

theorem get_mckey_ignores_flags_witness:
  "\<not> overview demo_env \<and>
   get_mckey demo_float_str
     (demo_env\<lparr>averaged := True, iowa := True, mn := True, progressbar := True, cruse := True,
        dpi := 300\<rparr>)
   = get_mckey demo_float_str demo_env \<and>
   get_mckey demo_float_str demo_env = Inr ''/auto/map.py/070801050306/20200601/20200601/0/avg_loss''"
proof -
  have h: "\<not> overview demo_env" by (simp add: demo_env_def)
  have k: "get_ts_ts2 demo_env = Inr (Date 2020 6 1, Date 2020 6 1)"
    by (simp add: get_ts_ts2_def demo_env_def mk_date_def c_int_def days_in_month_def)
  have m: "map_key (Some ''070801050306'') (Date 2020 6 1) (Date 2020 6 1) 0 ''avg_loss''
           = ''/auto/map.py/070801050306/20200601/20200601/0/avg_loss''"
    by (simp add: map_key_def str_opt_def fmt_Ymd_def pad2_def digit_def str_int_def
        str_nat.simps)
  have hs: "huc demo_env = Some ''070801050306''" "scenario demo_env = 0" "v demo_env = ''avg_loss''"
    by (simp_all add: demo_env_def)
  show ?thesis
    using h get_mckey_ignores_flags [OF h, where float_str = demo_float_str and a = True
        and i = True and m = True and p = True and c = True and d = 300]
    by (simp add: k m hs del: One_nat_def)
qed

text \<open>
  C10. get_ts_ts2 does not order the window: when both dates are valid calendar dates and
  the end date precedes the start date, the pair is returned as it is; and make_map does not
  reject such a window at its date test when both dates lie between 2007-01-01 and the last
  available date.
\<close>

theorem get_ts_ts2_keeps_reversed_window:
  assumes "mk_date (year env) (month env) (day env) = Inr ts"
    and "mk_date (case year2 env of None \<Rightarrow> year env | Some y \<Rightarrow> y)
                 (case month2 env of None \<Rightarrow> month env | Some m \<Rightarrow> m)
                 (case day2 env of None \<Rightarrow> day env | Some d \<Rightarrow> d) = Inr ts2"
    and "date_less ts2 ts"
  shows "get_ts_ts2 env = Inr (ts, ts2) \<and>
         (lastts lib conn = Inr marker \<and> date_le floor_date ts2 \<and> date_le ts marker \<longrightarrow>
            \<not> no_data_yet marker ts ts2 \<and>
            make_map lib conn h ts ts2 scen var env
              \<noteq> (Inl NoDataFound, [SelectHuc12Scenario, SelectLastDate]))"
proof (intro conjI impI)
  show "get_ts_ts2 env = Inr (ts, ts2)"
    using assms(1,2) by (simp add: get_ts_ts2_def)
next
  assume a: "lastts lib conn = Inr marker \<and> date_le floor_date ts2 \<and> date_le ts marker"
  then have lo: "date_le floor_date ts2" and hi: "date_le ts marker" by simp_all
  from assms(3) have le: "date_le ts2 ts" by (simp add: date_less_def)
  have "date_le ts2 marker" using le hi by (rule date_le_trans)
  moreover have "date_le floor_date ts" using lo le by (rule date_le_trans)
  ultimately show gate: "\<not> no_data_yet marker ts ts2"
    using hi by (simp add: no_data_yet_def date_less_iff_not_le)
  then show "make_map lib conn h ts ts2 scen var env
        \<noteq> (Inl NoDataFound, [SelectHuc12Scenario, SelectLastDate])"
    using a by (auto simp add: make_map_def split: option.splits prod.splits)
qed

lemma demo_lastts: "lastts demo_lib demo_conn = Inr (Date 2020 6 30)"
  by (simp add: lastts_def demo_lib_def demo_conn_def)

theorem get_ts_ts2_keeps_reversed_window_witness:
  "get_ts_ts2 (demo_env\<lparr>day := 10, year2 := Some 2020, month2 := Some 6, day2 := Some 2\<rparr>)
     = Inr (Date 2020 6 10, Date 2020 6 2) \<and>
   date_less (Date 2020 6 2) (Date 2020 6 10) \<and>
   \<not> no_data_yet (Date 2020 6 30) (Date 2020 6 10) (Date 2020 6 2) \<and>
   make_map demo_lib demo_conn (Some ''070801050306'') (Date 2020 6 10) (Date 2020 6 2) 0
       ''avg_loss'' (demo_env\<lparr>day := 10, year2 := Some 2020, month2 := Some 6, day2 := Some 2\<rparr>)
     \<noteq> (Inl NoDataFound, [SelectHuc12Scenario, SelectLastDate])"
proof -
  let ?env = "demo_env\<lparr>day := 10, year2 := Some 2020, month2 := Some 6, day2 := Some 2\<rparr>"
  have a: "mk_date (year ?env) (month ?env) (day ?env) = Inr (Date 2020 6 10)"
    by (simp add: demo_env_def mk_date_def c_int_def days_in_month_def)
  have b: "mk_date (case year2 ?env of None \<Rightarrow> year ?env | Some y \<Rightarrow> y)
                 (case month2 ?env of None \<Rightarrow> month ?env | Some m \<Rightarrow> m)
                 (case day2 ?env of None \<Rightarrow> day ?env | Some d \<Rightarrow> d) = Inr (Date 2020 6 2)"
    by (simp add: demo_env_def mk_date_def c_int_def days_in_month_def)
  have c: "date_less (Date 2020 6 2) (Date 2020 6 10)"
    by (simp add: date_less_def date_le_def)
  have d: "date_le floor_date (Date 2020 6 2) \<and> date_le (Date 2020 6 10) (Date 2020 6 30)"
    by (simp add: floor_date_def date_le_def)
  show ?thesis
    using get_ts_ts2_keeps_reversed_window [OF a b c, where conn = demo_conn and lib = demo_lib
        and marker = "Date 2020 6 30" and h = "Some ''070801050306''" and scen = 0
        and var = "''avg_loss''"] c d demo_lastts
    by simp
qed

lemma fst_read_postgis:
  "fst (read_postgis conn h ts ts2 scen h12 var dbcol env)
     \<in> {SelectCategorical, SelectAveraged, SelectPeriod}"
  by (simp add: read_postgis_def)

lemma make_map_gate_closed:
  assumes "scenarios conn scen = Some (h12, lb)" "lastts lib conn = Inr marker"
    and "no_data_yet marker ts ts2"
  shows "make_map lib conn h ts ts2 scen var env
           = (Inl NoDataFound, [SelectHuc12Scenario, SelectLastDate])"
  using assms by (simp add: make_map_def)

lemma make_map_gate_open:
  assumes "lastts lib conn = Inr marker" "\<not> no_data_yet marker ts ts2"
    and "make_map lib conn h ts ts2 scen var env = (Inl NoDataFound, evs)"
  shows "set evs \<inter> {SelectCategorical, SelectAveraged, SelectPeriod} \<noteq> {}"
proof (cases "scenarios conn scen")
  case None
  with assms(3) show ?thesis by (simp add: make_map_def)
next
  case (Some row)
  obtain h12 lb where row: "row = (h12, lb)" by (cases row)
  show ?thesis
  proof (cases "V2MULTI var")
    case None
    with assms Some row show ?thesis by (simp add: make_map_def)
  next
    case (Some dbcol)
    obtain q df where rp: "read_postgis conn h ts ts2 scen h12 var dbcol env = (q, df)"
      by (cases "read_postgis conn h ts ts2 scen h12 var dbcol env")
    have "q \<in> {SelectCategorical, SelectAveraged, SelectPeriod}"
      using fst_read_postgis [of conn h ts ts2 scen h12 var dbcol env] rp by simp
    moreover have "q \<in> set evs"
      using assms \<open>scenarios conn scen = Some row\<close> row Some rp
      by (auto simp add: make_map_def split: prod.splits)
    ultimately show ?thesis by auto
  qed
qed

text \<open>
  C4. When the scenario has a row in scenarios and the marker, if the store has one, reads
  as a date, make_map raises NoDataFound without having sent a data query exactly when the
  start or the end date is after the marker, or the start date is before 2007-01-01; the
  marker is 2007-01-01 when the store has none. A start date one day after the marker is
  refused; a start date equal to the marker is not (the end date being no later than the
  marker, and the marker no earlier than 2007-01-01).
\<close>

theorem make_map_freshness_gate:
  assumes "scenarios conn scen = Some (h12, lb)"
    and "lastts lib conn = Inr marker"
  shows "((\<exists>evs. make_map lib conn h ts ts2 scen var env = (Inl NoDataFound, evs) \<and>
                 set evs \<inter> {SelectCategorical, SelectAveraged, SelectPeriod} = {})
          \<longleftrightarrow> (date_less marker ts \<or> date_less marker ts2 \<or> date_less ts (Date 2007 1 1))) \<and>
         (last_date_0 conn = None \<longrightarrow> marker = Date 2007 1 1) \<and>
         (ts = next_day marker \<longrightarrow>
            make_map lib conn h ts ts2 scen var env
              = (Inl NoDataFound, [SelectHuc12Scenario, SelectLastDate])) \<and>
         (ts = marker \<and> date_le ts2 marker \<and> date_le (Date 2007 1 1) marker \<longrightarrow>
            make_map lib conn h ts ts2 scen var env
              \<noteq> (Inl NoDataFound, [SelectHuc12Scenario, SelectLastDate]))"
proof -
  have gate: "no_data_yet marker ts ts2 \<longleftrightarrow>
      (date_less marker ts \<or> date_less marker ts2 \<or> date_less ts (Date 2007 1 1))"
    by (simp add: no_data_yet_def floor_date_def)
  have closed: "no_data_yet marker ts ts2 \<Longrightarrow>
      make_map lib conn h ts ts2 scen var env
        = (Inl NoDataFound, [SelectHuc12Scenario, SelectLastDate])"
    using assms by (rule make_map_gate_closed)
  have 1: "(\<exists>evs. make_map lib conn h ts ts2 scen var env = (Inl NoDataFound, evs) \<and>
                 set evs \<inter> {SelectCategorical, SelectAveraged, SelectPeriod} = {})
          \<longleftrightarrow> no_data_yet marker ts ts2"
  proof
    assume "\<exists>evs. make_map lib conn h ts ts2 scen var env = (Inl NoDataFound, evs) \<and>
                 set evs \<inter> {SelectCategorical, SelectAveraged, SelectPeriod} = {}"
    then show "no_data_yet marker ts ts2" using make_map_gate_open [OF assms(2)] by blast
  next
    assume "no_data_yet marker ts ts2"
    then have "make_map lib conn h ts ts2 scen var env
           = (Inl NoDataFound, [SelectHuc12Scenario, SelectLastDate])"
      by (rule closed)
    then show "\<exists>evs. make_map lib conn h ts ts2 scen var env = (Inl NoDataFound, evs) \<and>
                 set evs \<inter> {SelectCategorical, SelectAveraged, SelectPeriod} = {}"
      by simp
  qed
  have 2: "last_date_0 conn = None \<longrightarrow> marker = Date 2007 1 1"
    using assms(2) by (auto simp add: lastts_def)
  have 3: "ts = next_day marker \<longrightarrow>
            make_map lib conn h ts ts2 scen var env
              = (Inl NoDataFound, [SelectHuc12Scenario, SelectLastDate])"
  proof
    assume "ts = next_day marker"
    then have "no_data_yet marker ts ts2" using gate date_less_next_day by simp
    then show "make_map lib conn h ts ts2 scen var env
              = (Inl NoDataFound, [SelectHuc12Scenario, SelectLastDate])"
      by (rule closed)
  qed
  have 4: "ts = marker \<and> date_le ts2 marker \<and> date_le (Date 2007 1 1) marker \<longrightarrow>
            make_map lib conn h ts ts2 scen var env
              \<noteq> (Inl NoDataFound, [SelectHuc12Scenario, SelectLastDate])"
  proof
    assume a: "ts = marker \<and> date_le ts2 marker \<and> date_le (Date 2007 1 1) marker"
    then have "\<not> no_data_yet marker ts ts2"
      using gate by (simp add: date_less_iff_not_le date_le_refl)
    then show "make_map lib conn h ts ts2 scen var env
              \<noteq> (Inl NoDataFound, [SelectHuc12Scenario, SelectLastDate])"
      using make_map_gate_open [OF assms(2), of ts ts2 h scen var env] by auto
  qed
  show ?thesis using 1 2 3 4 gate by simp
qed

theorem make_map_freshness_gate_witness:
  "scenarios demo_conn 0 = Some (0, None) \<and>
   lastts demo_lib demo_conn = Inr (Date 2020 6 30) \<and>
   next_day (Date 2020 6 30) = Date 2020 7 1 \<and>
   make_map demo_lib demo_conn (Some ''070801050306'') (Date 2020 7 1) (Date 2020 7 1) 0
       ''avg_loss'' demo_env
     = (Inl NoDataFound, [SelectHuc12Scenario, SelectLastDate]) \<and>
   date_le (Date 2007 1 1) (Date 2020 6 30) \<and>
   make_map demo_lib demo_conn (Some ''070801050306'') (Date 2020 6 30) (Date 2020 6 30) 0
       ''avg_loss'' demo_env
     \<noteq> (Inl NoDataFound, [SelectHuc12Scenario, SelectLastDate])"
proof -
  have sc: "scenarios demo_conn 0 = Some (0, None)" by (simp add: demo_conn_def)
  have nd: "next_day (Date 2020 6 30) = Date 2020 7 1"
    by (simp add: next_day_def days_in_month_def)
  have le: "date_le (Date 2007 1 1) (Date 2020 6 30)" "date_le (Date 2020 6 30) (Date 2020 6 30)"
    by (simp_all add: date_le_def)
  show ?thesis
    using make_map_freshness_gate [OF sc demo_lastts, of "Some ''070801050306''" "Date 2020 7 1"
        "Date 2020 7 1" "''avg_loss''" demo_env]
      make_map_freshness_gate [OF sc demo_lastts, of "Some ''070801050306''" "Date 2020 6 30"
        "Date 2020 6 30" "''avg_loss''" demo_env]
      sc nd le demo_lastts
    by (simp del: One_nat_def)
qed

theorem missing_scenario_raises_before_gate:
  "scenarios demo_conn 5 = None \<and>
   lastts demo_lib demo_conn = Inr (Date 2020 6 30) \<and>
   date_less (Date 2020 6 30) (Date 2020 7 1) \<and>
   make_map demo_lib demo_conn (Some ''070801050306'') (Date 2020 7 1) (Date 2020 7 1) 5
       ''avg_loss'' (demo_env\<lparr>month := 7, scenario := 5\<rparr>)
     = (Inl TypeError, [SelectHuc12Scenario])"
  by (simp add: make_map_def demo_conn_def demo_lastts [unfolded demo_conn_def]
      date_less_def date_le_def)

text \<open>
  C6. For a continuous variable whose 95th percentile is NaN, or is no greater than the top
  edge of the base ramp, the bins are the base ramp itself and the locator is not called;
  the base ramp is the daily ramp when the two dates are equal and the period ramp
  otherwise.
\<close>

theorem select_bins_keeps_base_ramp:
  assumes "var \<noteq> ''dt''" "var \<noteq> ''slp''"
    and "base = (if ts = ts2 then RAMPS lib ''english'' 0 else RAMPS lib ''english'' 1)"
    and "describe_95 lib data = Inr None \<or>
         (\<exists>p95. describe_95 lib data = Inr (Some p95) \<and> base \<noteq> [] \<and> p95 \<le> last base)"
  shows "select_bins lib var ts ts2 data = (Inr base, [])"
  using assms by (auto simp add: select_bins_def categorical_bins_def)

theorem select_bins_keeps_base_ramp_witness:
  "describe_95 demo_lib [Some 2, Some 0] = Inr (Some 2) \<and>
   select_bins demo_lib ''avg_loss'' (Date 2020 6 1) (Date 2020 6 1) [Some 2, Some 0]
     = (Inr [0.05, 0.25, 0.5, 1, 2, 5], []) \<and>
   describe_95 (demo_lib\<lparr>percentile95 := \<lambda>xs. None\<rparr>) [Some 2] = Inr None \<and>
   select_bins (demo_lib\<lparr>percentile95 := \<lambda>xs. None\<rparr>) ''avg_loss'' (Date 2020 6 1)
       (Date 2020 6 2) [Some 2]
     = (Inr [1, 2, 5, 10, 20, 50], [])"
proof -
  let ?nan = "demo_lib\<lparr>percentile95 := \<lambda>xs. None\<rparr>"
  have a: "''avg_loss'' \<noteq> ''dt''" "''avg_loss'' \<noteq> ''slp''" by simp_all
  have b1: "[0.05, 0.25, 0.5, 1, 2, 5] =
      (if Date 2020 6 1 = Date 2020 6 1 then RAMPS demo_lib ''english'' 0
       else RAMPS demo_lib ''english'' 1)"
    by (simp add: demo_lib_def)
  have b2: "[1, 2, 5, 10, 20, 50] =
      (if Date 2020 6 1 = Date 2020 6 2 then RAMPS ?nan ''english'' 0
       else RAMPS ?nan ''english'' 1)"
    by (simp add: demo_lib_def)
  have p1: "describe_95 demo_lib [Some 2, Some 0] = Inr (Some 2)"
    by (simp add: describe_95_def demo_lib_def)
  have p2: "describe_95 ?nan [Some 2] = Inr None"
    by (simp add: describe_95_def)
  have c1: "describe_95 demo_lib [Some 2, Some 0] = Inr None \<or>
         (\<exists>p95. describe_95 demo_lib [Some 2, Some 0] = Inr (Some p95) \<and>
                [0.05, 0.25, 0.5, 1, 2, 5] \<noteq> [] \<and> p95 \<le> last [0.05, 0.25, 0.5, 1, 2, 5])"
    by (simp add: p1)
  have c2: "describe_95 ?nan [Some 2] = Inr None \<or>
         (\<exists>p95. describe_95 ?nan [Some 2] = Inr (Some p95) \<and>
                [1, 2, 5, 10, 20, 50] \<noteq> [] \<and> p95 \<le> last [1, 2, 5, 10, 20, 50])"
    by (simp add: p2)
  show ?thesis
    using select_bins_keeps_base_ramp [OF a b1 c1] select_bins_keeps_base_ramp [OF a b2 c2] p1 p2
    by simp
qed

text \<open>A continuous read holds no NULL, so line 317 finds its entry for such a request.\<close>

lemma non_null_not_Nil: "xs \<noteq> [] \<Longrightarrow> None \<notin> set xs \<Longrightarrow> non_null xs \<noteq> []"
proof (cases xs)
  case Nil
  assume "xs \<noteq> []"
  with Nil show ?thesis by simp
next
  case (Cons a list)
  assume "None \<notin> set xs"
  with Cons obtain y where "a = Some y" by (cases a) auto
  with Cons show ?thesis by simp
qed

lemma continuous_read_describe:
  assumes "var \<noteq> ''dt''" "var \<noteq> ''slp''"
    and "read_postgis conn h ts ts2 scen h12 var dbcol env = (q, df)" "df \<noteq> []"
  shows "describe_95 lib (map snd df) = Inr (percentile95 lib (map snd df))"
proof -
  have "None \<notin> set (map snd df)"
    using assms(1-3)
    by (auto simp add: read_postgis_def query_averaged_def query_period_def joined_def
        split: if_splits)
  then have "non_null (map snd df) \<noteq> []"
    using assms(4) by (simp add: non_null_not_Nil)
  then show ?thesis by (simp add: describe_95_def)
qed

lemma select_bins_all_null:
  "non_null data = [] \<Longrightarrow> select_bins lib var ts ts2 data = (Inl KeyError, [])"
  by (simp add: select_bins_def describe_95_def)

lemma dt_bins: "map real [1..<8] = [1, 2, 3, 4, 5, 6, 7]"
  by (simp add: upt_rec)

lemma demo_period_read:
  assumes "\<not> averaged env" "\<not> iowa env" "\<not> mn env"
  shows "read_postgis demo_conn (Some ''070801050306'') (Date 2020 6 1) (Date 2020 6 1) 0 0
     ''avg_loss'' 4.463 env = (SelectPeriod, [(1, Some 8.926)])"
  using assms
  by (simp add: read_postgis_def query_period_def joined_def group_by_huc_12_def period_rows_def
      left_join_def huclimiter_def column_def sql_sum_def coalesce_def demo_conn_def
      demo_regions_def demo_rows_def date_le_def)

lemma demo_categorical_read:
  "read_postgis demo_conn None (Date 2020 6 1) (Date 2020 6 1) 0 0
     ''dt'' 1 (demo_env\<lparr>v := ''dt'', huc := None\<rparr>) = (SelectCategorical, [(1, Some 6), (2, Some 2)])"
  by (simp add: read_postgis_def query_categorical_def huclimiter_def demo_conn_def
      demo_regions_def demo_env_def)

lemma demo_gate:
  "scenarios demo_conn 0 = Some (0, None)" "lastts demo_lib demo_conn = Inr (Date 2020 6 30)"
  "\<not> no_data_yet (Date 2020 6 30) (Date 2020 6 1) (Date 2020 6 1)"
  by (simp_all add: demo_conn_def demo_lib_def lastts_def no_data_yet_def floor_date_def
      date_less_def date_le_def)

lemma draw_cruse_without_mean:
  assumes "df \<noteq> []" "select_bins lib var ts ts2 (map snd df) = (Inr b, evs)"
    and "V2UNITS var = Some u" "cruse env" "\<not> progressbar env"
  shows "draw lib conn ts ts2 scen var env df = (Inl TypeError, evs @ snd (label_scenario conn scen))"
  using assms
  by (simp add: draw_def avgval_of_def cruse_depth_def split: prod.splits)

lemma make_map_reads:
  assumes "scenarios conn scen = Some (h12, lb)" "lastts lib conn = Inr marker"
    and "\<not> no_data_yet marker ts ts2" "V2MULTI var = Some dbcol"
    and "read_postgis conn h ts ts2 scen h12 var dbcol env = (q, df)"
    and "draw lib conn ts ts2 scen var env df = (res, evs)"
  shows "make_map lib conn h ts ts2 scen var env
           = (res, [SelectHuc12Scenario, SelectLastDate, q] @ evs)"
  using assms by (simp add: make_map_def)

text \<open>
  C7. A request with cruse set and progressbar unset does not complete: avgval is still
  Python's None when it is divided by 5.0, and make_map raises TypeError after the reads and
  the bin selection, where the claim expects an image without a badge.
\<close>

theorem cruse_without_progressbar_raises:
  "make_map demo_lib demo_conn (Some ''070801050306'') (Date 2020 6 1) (Date 2020 6 1) 0
     ''avg_loss'' (demo_env\<lparr>cruse := True\<rparr>)
   = (Inl TypeError, [SelectHuc12Scenario, SelectLastDate, SelectPeriod, CallPrettyBins 0 8.926])"
proof -
  let ?env = "demo_env\<lparr>cruse := True\<rparr>"
  have r: "read_postgis demo_conn (Some ''070801050306'') (Date 2020 6 1) (Date 2020 6 1) 0 0
     ''avg_loss'' 4.463 ?env = (SelectPeriod, [(1, Some 8.926)])"
    by (rule demo_period_read) (simp_all add: demo_env_def)
  have b: "select_bins demo_lib ''avg_loss'' (Date 2020 6 1) (Date 2020 6 1)
             (map snd [(1::nat, Some 8.926)])
           = (Inr [0.01, 4.463, 8.926], [CallPrettyBins 0 8.926])"
    by (simp add: select_bins_def describe_95_def demo_lib_def categorical_bins_def)
  have d: "draw demo_lib demo_conn (Date 2020 6 1) (Date 2020 6 1) 0 ''avg_loss'' ?env
             [(1, Some 8.926)]
           = (Inl TypeError, [CallPrettyBins 0 8.926] @ snd (label_scenario demo_conn 0))"
    by (rule draw_cruse_without_mean [OF _ b]) (simp_all add: V2UNITS_def demo_env_def)
  have m: "V2MULTI ''avg_loss'' = Some 4.463" by (simp add: V2MULTI_def)
  show ?thesis
    using make_map_reads [OF demo_gate m r d] by (simp add: label_scenario_def)
qed

lemma categorical_bins_dt: "categorical_bins ''dt'' bs = [1, 2, 3, 4, 5, 6, 7]"
  unfolding categorical_bins_def dt_bins by simp

lemma categorical_bins_slp: "categorical_bins ''slp'' bs = [0, 0.01, 0.03, 0.05, 0.07, 0.1, 0.5]"
  unfolding categorical_bins_def by simp

lemma categorical_bins_other:
  "var \<noteq> ''dt'' \<Longrightarrow> var \<noteq> ''slp'' \<Longrightarrow> categorical_bins var bs = bs"
  unfolding categorical_bins_def by simp

text \<open>
  C5. For the two categorical variables, when the column holds at least one value, the
  final bins are fixed whatever the values: 1 to 7 for dt, and 0, 0.01, 0.03, 0.05, 0.07,
  0.1, 0.5 for slp. The percentile test still runs first: when the 95th percentile is above
  the top edge of the base ramp the locator is called, and its result is then replaced.
\<close>

theorem categorical_bins_are_fixed:
  assumes "var = ''dt'' \<or> var = ''slp''"
    and "base = (if ts = ts2 then RAMPS lib ''english'' 0 else RAMPS lib ''english'' 1)"
    and "base \<noteq> []" and "\<forall>p. pretty_bins lib 0 p \<noteq> []"
    and "non_null data \<noteq> []"
  shows "select_bins lib var ts ts2 data =
           (Inr (if var = ''dt'' then [1, 2, 3, 4, 5, 6, 7]
                 else [0, 0.01, 0.03, 0.05, 0.07, 0.1, 0.5]),
            case percentile95 lib data of
              None \<Rightarrow> []
            | Some p95 \<Rightarrow> if p95 > last base then [CallPrettyBins 0 p95] else [])"
proof -
  have cb: "categorical_bins var bs =
      (if var = ''dt'' then [1, 2, 3, 4, 5, 6, 7] else [0, 0.01, 0.03, 0.05, 0.07, 0.1, 0.5])" for bs
    using assms(1) categorical_bins_dt categorical_bins_slp by auto
  have d: "describe_95 lib data = Inr (percentile95 lib data)"
    using assms(5) by (simp add: describe_95_def)
  have sb: "select_bins lib var ts ts2 data =
      (case percentile95 lib data of
         None \<Rightarrow> (Inr (categorical_bins var base), [])
       | Some p95 \<Rightarrow>
           if base = [] then (Inl IndexError, [])
           else if p95 > last base then
             (if pretty_bins lib 0 p95 = [] then (Inl IndexError, [CallPrettyBins 0 p95])
              else (Inr (categorical_bins var ((pretty_bins lib 0 p95)[0 := 0.01])),
                    [CallPrettyBins 0 p95]))
           else (Inr (categorical_bins var base), []))"
    unfolding select_bins_def Let_def assms(2) [symmetric] d by simp
  show ?thesis
  proof (cases "percentile95 lib data")
    case None
    then show ?thesis unfolding sb cb by simp
  next
    case (Some p95)
    then show ?thesis unfolding sb cb using assms(3,4) by simp
  qed
qed

theorem categorical_bins_are_fixed_witness:
  "select_bins demo_lib ''dt'' (Date 2020 6 1) (Date 2020 6 1) [Some 6, Some 2]
     = (Inr [1, 2, 3, 4, 5, 6, 7], [CallPrettyBins 0 6]) \<and>
   select_bins demo_lib ''slp'' (Date 2020 6 1) (Date 2020 6 1) [Some 0.04, Some 0.02]
     = (Inr [0, 0.01, 0.03, 0.05, 0.07, 0.1, 0.5], [])"
proof -
  have b: "[0.05, 0.25, 0.5, 1, 2, 5] =
      (if Date 2020 6 1 = Date 2020 6 1 then RAMPS demo_lib ''english'' 0
       else RAMPS demo_lib ''english'' 1)"
    by (simp add: demo_lib_def)
  have n: "[0.05, 0.25, 0.5, 1, 2, 5] \<noteq> ([] :: real list)" by simp
  have p: "\<forall>p. pretty_bins demo_lib 0 p \<noteq> []" by (simp add: demo_lib_def)
  have dt: "''dt'' = ''dt'' \<or> ''dt'' = ''slp''" and slp: "''slp'' = ''dt'' \<or> ''slp'' = ''slp''"
    by simp_all
  have v1: "non_null [Some (6::real), Some 2] \<noteq> []"
    and v2: "non_null [Some (0.04::real), Some 0.02] \<noteq> []"
    by simp_all
  show ?thesis
    using categorical_bins_are_fixed [OF dt b n p v1] categorical_bins_are_fixed [OF slp b n p v2]
    by (simp add: demo_lib_def)
qed

lemma draw_plain:
  assumes "df \<noteq> []" "select_bins lib var ts ts2 (map snd df) = (Inr b, evs)"
    and "V2UNITS var = Some u" "\<not> cruse env" "\<not> progressbar env"
  shows "draw lib conn ts ts2 scen var env df =
           (Inr \<lparr> polygons = df, bins = b,
                   cmap = (if var = ''qc_precip'' \<or> var = ''avg_runoff'' then James else DepErosion),
                   units = u @ (if ts \<noteq> ts2 \<and> averaged env then ''/yr'' else []),
                   label = fst (label_scenario conn scen), bar = None, badge = None,
                   out_dpi = dpi env \<rparr>,
            evs @ snd (label_scenario conn scen))"
  using assms
  by (simp add: draw_def avgval_of_def cruse_depth_def split: prod.splits)

theorem categorical_request_calls_locator:
  "make_map demo_lib demo_conn None (Date 2020 6 1) (Date 2020 6 1) 0 ''dt''
     (demo_env\<lparr>v := ''dt'', huc := None\<rparr>)
   = (Inr \<lparr> polygons = [(1, Some 6), (2, Some 2)], bins = [1, 2, 3, 4, 5, 6, 7],
            cmap = DepErosion, units = ''categorical'', label = None, bar = None,
            badge = None, out_dpi = 100 \<rparr>,
      [SelectHuc12Scenario, SelectLastDate, SelectCategorical, CallPrettyBins 0 6])"
proof -
  let ?env = "demo_env\<lparr>v := ''dt'', huc := None\<rparr>"
  have m: "V2MULTI ''dt'' = Some 1" by (simp add: V2MULTI_def)
  have b: "select_bins demo_lib ''dt'' (Date 2020 6 1) (Date 2020 6 1)
             (map snd [(1::nat, Some 6), (2, Some 2)])
           = (Inr [1, 2, 3, 4, 5, 6, 7], [CallPrettyBins 0 6])"
    by (simp add: select_bins_def describe_95_def demo_lib_def categorical_bins_dt)
  have u: "V2UNITS ''dt'' = Some ''categorical''" by (simp add: V2UNITS_def)
  have f: "\<not> cruse ?env" "\<not> progressbar ?env" by (simp_all add: demo_env_def)
  have ne: "[(1::nat, Some (6::real)), (2, Some 2)] \<noteq> []" by simp
  note d = draw_plain [OF ne b u f, of demo_conn 0]
  show ?thesis
    using make_map_reads [OF demo_gate m demo_categorical_read d]
    by (simp add: label_scenario_def demo_env_def demo_conn_def)
qed

lemma below_all_edges_in_no_bin: "\<forall>e \<in> set bs. x < e \<Longrightarrow> \<not> in_some_bin bs x"
  by (induction bs x rule: in_some_bin.induct) auto

text \<open>
  C3. For a continuous variable whose 95th percentile is a number above the top edge of the
  base ramp, the bins are the locator's edges from 0 to that percentile with the bottom edge
  replaced by 0.01, which is above 0. A data value of exactly 0 is then below the bottom
  edge: it is not in the lowest bin, and in no bin at all when the edges are sorted.
\<close>

theorem select_bins_regenerates:
  assumes "var \<noteq> ''dt''" "var \<noteq> ''slp''"
    and "base = (if ts = ts2 then RAMPS lib ''english'' 0 else RAMPS lib ''english'' 1)"
    and "describe_95 lib data = Inr (Some p95)" "base \<noteq> []" "p95 > last base"
    and "pretty_bins lib 0 p95 \<noteq> []"
    and "bins' = (pretty_bins lib 0 p95)[0 := 0.01]"
  shows "select_bins lib var ts ts2 data = (Inr bins', [CallPrettyBins 0 p95]) \<and>
         hd bins' = 0.01 \<and> 0 < hd bins' \<and>
         \<not> in_lowest_bin bins' 0 \<and>
         (sorted bins' \<longrightarrow> \<not> in_some_bin bins' 0)"
proof -
  obtain b bs where pb: "pretty_bins lib 0 p95 = b # bs"
    using assms(7) by (cases "pretty_bins lib 0 p95") auto
  then have bins: "bins' = 0.01 # bs" using assms(8) by simp
  have 1: "select_bins lib var ts ts2 data = (Inr bins', [CallPrettyBins 0 p95])"
    using assms by (simp add: select_bins_def categorical_bins_def)
  have 2: "\<not> in_lowest_bin bins' 0"
    by (simp add: bins in_lowest_bin_def split: list.splits)
  have 3: "sorted bins' \<longrightarrow> \<not> in_some_bin bins' 0"
  proof
    assume "sorted bins'"
    then have "\<forall>e \<in> set bins'. (0::real) < e" by (auto simp add: bins)
    then show "\<not> in_some_bin bins' 0" by (rule below_all_edges_in_no_bin)
  qed
  show ?thesis using 1 2 3 by (simp add: bins)
qed

theorem select_bins_regenerates_witness:
  "select_bins demo_lib ''avg_loss'' (Date 2020 6 1) (Date 2020 6 1) [Some 20, Some 0]
     = (Inr [0.01, 10, 20], [CallPrettyBins 0 20]) \<and>
   sorted [0.01, 10, 20 :: real] \<and> \<not> in_lowest_bin [0.01, 10, 20] 0 \<and>
   \<not> in_some_bin [0.01, 10, 20] 0"
proof -
  have a: "''avg_loss'' \<noteq> ''dt''" "''avg_loss'' \<noteq> ''slp''" by simp_all
  have b: "[0.05, 0.25, 0.5, 1, 2, 5] =
      (if Date 2020 6 1 = Date 2020 6 1 then RAMPS demo_lib ''english'' 0
       else RAMPS demo_lib ''english'' 1)"
    by (simp add: demo_lib_def)
  have p: "describe_95 demo_lib [Some 20, Some 0] = Inr (Some 20)"
    by (simp add: describe_95_def demo_lib_def)
  have n: "[0.05, 0.25, 0.5, 1, 2, 5] \<noteq> ([] :: real list)" by simp
  have g: "20 > last [0.05, 0.25, 0.5, 1, 2, 5 :: real]" by simp
  have q: "pretty_bins demo_lib 0 20 \<noteq> []" by (simp add: demo_lib_def)
  have r: "[0.01, 10, 20] = (pretty_bins demo_lib 0 20)[0 := 0.01]" by (simp add: demo_lib_def)
  have s: "sorted [0.01, 10, 20 :: real]" by simp
  show ?thesis
    using select_bins_regenerates [OF a b p n g q r] s by simp
qed

theorem zero_below_regenerated_bins:
  "select_bins demo_lib ''avg_loss'' (Date 2020 6 1) (Date 2020 6 1) [Some 20, Some 0]
     = (Inr [0.01, 10, 20], [CallPrettyBins 0 20]) \<and>
   \<not> in_lowest_bin [0.01, 10, 20] 0"
  by (simp add: select_bins_def describe_95_def demo_lib_def categorical_bins_def
      in_lowest_bin_def)

subsection \<open>The aggregate reads\<close>

lemma filter_eq_distinct:
  "distinct xs \<Longrightarrow> filter (\<lambda>x. x = k) xs = (if k \<in> set xs then [k] else [])"
  by (induction xs) auto

lemma group_by_huc_12_lookup:
  "filter (\<lambda>d. fst d = k) (group_by_huc_12 agg var rows) =
     (if k \<in> r_huc_12 ` set rows
      then [(k, agg (map (column var) (filter (\<lambda>r. r_huc_12 r = k) rows)))]
      else [])"
proof -
  have "filter (\<lambda>d. fst d = k) (group_by_huc_12 agg var rows) =
      map (\<lambda>k. (k, agg (map (column var) (filter (\<lambda>r. r_huc_12 r = k) rows))))
        (filter (\<lambda>x. x = k) (remdups (map r_huc_12 rows)))"
    by (simp add: group_by_huc_12_def filter_map o_def)
  also have "filter (\<lambda>x. x = k) (remdups (map r_huc_12 rows)) =
      (if k \<in> r_huc_12 ` set rows then [k] else [])"
    by (simp add: filter_eq_distinct)
  finally show ?thesis by simp
qed

lemma left_join_group:
  "left_join regions (group_by_huc_12 agg var rows) =
     map (\<lambda>i. (i, if huc_12 i \<in> r_huc_12 ` set rows
                    then agg (map (column var) (filter (\<lambda>r. r_huc_12 r = huc_12 i) rows))
                    else None)) regions"
  by (induction regions) (simp_all add: left_join_def group_by_huc_12_lookup)

lemma no_rows_of_absent_key:
  "k \<notin> r_huc_12 ` set rows \<Longrightarrow> filter (\<lambda>r. r_huc_12 r = k) rows = []"
  by (induction rows) auto

lemma coalesce_sql_sum: "coalesce (sql_sum xs) 0 = sum_list (non_null xs)"
  by (simp add: coalesce_def sql_sum_def split: list.splits)

lemma coalesce_sql_sum_div:
  "coalesce (map_option (\<lambda>s. s / 10) (sql_sum xs)) 0 = sum_list (non_null xs) / 10"
  by (simp add: coalesce_def sql_sum_def split: list.splits)

lemma joined_group:
  assumes "\<And>xs. coalesce (agg xs) 0 = f (sum_list (non_null xs))" "f 0 = 0"
  shows "joined conn h h12 dbcol env (group_by_huc_12 agg var rows) =
     map (\<lambda>i. (simple_geom i,
                Some (f (sum_list (non_null (map (column var)
                        (filter (\<lambda>r. r_huc_12 r = huc_12 i) rows)))) * dbcol)))
       (filter (\<lambda>i. h_scenario i = h12 \<and> huclimiter h env i) (huc12 conn))"
proof -
  have val: "coalesce (if huc_12 i \<in> r_huc_12 ` set rows
                    then agg (map (column var) (filter (\<lambda>r. r_huc_12 r = huc_12 i) rows))
                    else None) 0
        = f (sum_list (non_null (map (column var) (filter (\<lambda>r. r_huc_12 r = huc_12 i) rows))))"
    for i :: "'a huc12_row"
    using assms by (simp add: no_rows_of_absent_key) (simp add: coalesce_def)
  show ?thesis
    unfolding joined_def left_join_group
    by (simp add: filter_map o_def val)
qed

lemma draw_polygons: "draw lib conn ts ts2 scen var env df = (Inr r, evs) \<Longrightarrow> polygons r = df"
  by (auto simp add: draw_def Let_def split: if_split_asm prod.splits sum.splits option.splits)

lemma make_map_polygons:
  assumes "make_map lib conn h ts ts2 scen var env = (Inr r, evs)"
    and "scenarios conn scen = Some (h12, lb)" "V2MULTI var = Some dbcol"
  shows "polygons r = snd (read_postgis conn h ts ts2 scen h12 var dbcol env)"
proof -
  obtain q df where rp: "read_postgis conn h ts ts2 scen h12 var dbcol env = (q, df)"
    by (cases "read_postgis conn h ts ts2 scen h12 var dbcol env")
  obtain res evs' where dr: "draw lib conn ts ts2 scen var env df = (res, evs')"
    by (cases "draw lib conn ts ts2 scen var env df")
  show ?thesis
  proof (cases "lastts lib conn")
    case (Inl e)
    with assms show ?thesis by (simp add: make_map_def)
  next
    case (Inr marker)
    show ?thesis
    proof (cases "no_data_yet marker ts ts2")
      case True
      with assms Inr show ?thesis by (simp add: make_map_def)
    next
      case False
      with assms Inr rp dr have "res = Inr r" by (simp add: make_map_def)
      with dr have "polygons r = df" by (simp add: draw_polygons)
      then show ?thesis by (simp add: rp)
    qed
  qed
qed

text \<open>The four continuous variables, each with its column and its multiplier.\<close>

lemma column_of_variable:
  "column ''avg_loss'' = avg_loss" "column ''qc_precip'' = qc_precip"
  "column ''avg_delivery'' = avg_delivery" "column ''avg_runoff'' = avg_runoff"
  by (rule ext, simp add: column_def)+

lemma multiplier_of_variable:
  "V2MULTI ''avg_loss'' = Some 4.463" "V2MULTI ''qc_precip'' = Some (1 / 25.4)"
  "V2MULTI ''avg_delivery'' = Some 4.463" "V2MULTI ''avg_runoff'' = Some (1 / 25.4)"
  by (simp_all add: V2MULTI_def)

lemma continuous_variable:
  fixes col :: "result_row \<Rightarrow> real option"
  assumes "var = ''avg_loss'' \<and> col = avg_loss \<and> m = 4.463 \<or>
           var = ''qc_precip'' \<and> col = qc_precip \<and> m = 1 / 25.4 \<or>
           var = ''avg_delivery'' \<and> col = avg_delivery \<and> m = 4.463 \<or>
           var = ''avg_runoff'' \<and> col = avg_runoff \<and> m = 1 / 25.4"
  shows "var \<noteq> ''dt'' \<and> var \<noteq> ''slp'' \<and> column var = col \<and> V2MULTI var = Some m"
  using assms
proof (elim disjE conjE)
  assume "var = ''avg_loss''" "col = avg_loss" "m = 4.463"
  then show ?thesis by (simp only: column_of_variable multiplier_of_variable) simp
next
  assume "var = ''qc_precip''" "col = qc_precip" "m = 1 / 25.4"
  then show ?thesis by (simp only: column_of_variable multiplier_of_variable) simp
next
  assume "var = ''avg_delivery''" "col = avg_delivery" "m = 4.463"
  then show ?thesis by (simp only: column_of_variable multiplier_of_variable) simp
next
  assume "var = ''avg_runoff''" "col = avg_runoff" "m = 1 / 25.4"
  then show ?thesis by (simp only: column_of_variable multiplier_of_variable) simp
qed

text \<open>
  C1. For each continuous variable (avg_loss, qc_precip, avg_delivery, avg_runoff) and a
  request that is not averaged, the read gives every region of the scope one row: the sum
  of the column of that variable over the rows of the scenario and of that region dated
  from the start to the end date, both included (0 for a region without such rows), times
  the multiplier of the variable, once: 4.463 for avg_loss and avg_delivery, 1 / 25.4 for
  qc_precip and avg_runoff. These rows are the polygons of the image make_map returns.
\<close>

theorem period_sum_per_region:
  fixes col :: "result_row \<Rightarrow> real option"
  assumes "var = ''avg_loss'' \<and> col = avg_loss \<and> m = 4.463 \<or>
           var = ''qc_precip'' \<and> col = qc_precip \<and> m = 1 / 25.4 \<or>
           var = ''avg_delivery'' \<and> col = avg_delivery \<and> m = 4.463 \<or>
           var = ''avg_runoff'' \<and> col = avg_runoff \<and> m = 1 / 25.4"
    and "\<not> averaged env"
    and "df = map (\<lambda>i. (simple_geom i,
                    Some (sum_list (non_null (map col
                            (filter (\<lambda>r. r_scenario r = scen \<and> date_le ts (valid r) \<and>
                                         date_le (valid r) ts2 \<and> r_huc_12 r = huc_12 i)
                               (results_by_huc12 conn)))) * m)))
               (filter (\<lambda>i. h_scenario i = h12 \<and> huclimiter h env i) (huc12 conn))"
  shows "V2MULTI var = Some m \<and>
         read_postgis conn h ts ts2 scen h12 var m env = (SelectPeriod, df) \<and>
         (scenarios conn scen = Some (h12, lb) \<and>
          make_map lib conn h ts ts2 scen var env = (Inr r, evs) \<longrightarrow> polygons r = df)"
proof -
  have cv: "var \<noteq> ''dt''" "var \<noteq> ''slp''" "column var = col" "V2MULTI var = Some m"
    using continuous_variable [OF assms(1)] by simp_all
  have rp: "read_postgis conn h ts ts2 scen h12 var m env = (SelectPeriod, df)"
    using cv(1,2) assms(2) unfolding assms(3) cv(3) [symmetric]
    by (simp add: read_postgis_def query_period_def period_rows_def
        joined_group [where f = "\<lambda>x. x", OF coalesce_sql_sum])
  moreover have "scenarios conn scen = Some (h12, lb) \<and>
          make_map lib conn h ts ts2 scen var env = (Inr r, evs) \<longrightarrow> polygons r = df"
    using make_map_polygons [of lib conn h ts ts2 scen var env r evs h12 lb m] cv(4) rp
    by simp
  ultimately show ?thesis using cv(4) by simp
qed

lemma demo_period_frame:
  fixes col :: "result_row \<Rightarrow> real option"
  shows "map (\<lambda>i. (simple_geom i,
                    Some (sum_list (non_null (map col
                            (filter (\<lambda>r. r_scenario r = 0 \<and> date_le (Date 2020 6 1) (valid r) \<and>
                                         date_le (valid r) (Date 2020 6 2) \<and> r_huc_12 r = huc_12 i)
                               (results_by_huc12 demo_conn)))) * m)))
               (filter (\<lambda>i. h_scenario i = 0 \<and> huclimiter None (demo_env\<lparr>huc := None\<rparr>) i)
                  (huc12 demo_conn))
         = [(1, Some (sum_list (non_null [col (demo_rows ! 0), col (demo_rows ! 1)]) * m)),
            (2, Some 0)]"
  by (simp add: demo_conn_def demo_regions_def demo_rows_def demo_env_def huclimiter_def
      date_le_def)

theorem period_sum_per_region_witness:
  "read_postgis demo_conn None (Date 2020 6 1) (Date 2020 6 2) 0 0 ''avg_loss'' 4.463
     (demo_env\<lparr>huc := None\<rparr>)
   = (SelectPeriod, [(1, Some 22.315), (2, Some 0)]) \<and>
   read_postgis demo_conn None (Date 2020 6 1) (Date 2020 6 2) 0 0 ''qc_precip'' (1 / 25.4)
     (demo_env\<lparr>huc := None\<rparr>)
   = (SelectPeriod, [(1, Some 3), (2, Some 0)]) \<and>
   read_postgis demo_conn None (Date 2020 6 1) (Date 2020 6 2) 0 0 ''avg_delivery'' 4.463
     (demo_env\<lparr>huc := None\<rparr>)
   = (SelectPeriod, [(1, Some 4.463), (2, Some 0)]) \<and>
   read_postgis demo_conn None (Date 2020 6 1) (Date 2020 6 2) 0 0 ''avg_runoff'' (1 / 25.4)
     (demo_env\<lparr>huc := None\<rparr>)
   = (SelectPeriod, [(1, Some 0), (2, Some 0)])"
proof -
  have a: "\<not> averaged (demo_env\<lparr>huc := None\<rparr>)" by (simp add: demo_env_def)
  have v1: "''avg_loss'' = ''avg_loss'' \<and> avg_loss = avg_loss \<and> (4.463::real) = 4.463 \<or> X"
    and v2: "Y1 \<or> ''qc_precip'' = ''qc_precip'' \<and> qc_precip = qc_precip \<and>
               (1 / 25.4 :: real) = 1 / 25.4 \<or> X"
    and v3: "Y1 \<or> Y2 \<or> ''avg_delivery'' = ''avg_delivery'' \<and> avg_delivery = avg_delivery \<and>
               (4.463::real) = 4.463 \<or> X"
    and v4: "Y1 \<or> Y2 \<or> Y3 \<or> ''avg_runoff'' = ''avg_runoff'' \<and> avg_runoff = avg_runoff \<and>
               (1 / 25.4 :: real) = 1 / 25.4"
    for X Y1 Y2 Y3
    by simp_all
  have 1: "read_postgis demo_conn None (Date 2020 6 1) (Date 2020 6 2) 0 0 ''avg_loss'' 4.463
     (demo_env\<lparr>huc := None\<rparr>) = (SelectPeriod, [(1, Some 22.315), (2, Some 0)])"
    using period_sum_per_region [OF v1 a demo_period_frame [symmetric]]
    by (simp add: demo_rows_def)
  have 2: "read_postgis demo_conn None (Date 2020 6 1) (Date 2020 6 2) 0 0 ''qc_precip'' (1 / 25.4)
     (demo_env\<lparr>huc := None\<rparr>) = (SelectPeriod, [(1, Some 3), (2, Some 0)])"
    using period_sum_per_region [OF v2 a demo_period_frame [symmetric]]
    by (simp add: demo_rows_def)
  have 3: "read_postgis demo_conn None (Date 2020 6 1) (Date 2020 6 2) 0 0 ''avg_delivery'' 4.463
     (demo_env\<lparr>huc := None\<rparr>) = (SelectPeriod, [(1, Some 4.463), (2, Some 0)])"
    using period_sum_per_region [OF v3 a demo_period_frame [symmetric]]
    by (simp add: demo_rows_def)
  have 4: "read_postgis demo_conn None (Date 2020 6 1) (Date 2020 6 2) 0 0 ''avg_runoff'' (1 / 25.4)
     (demo_env\<lparr>huc := None\<rparr>) = (SelectPeriod, [(1, Some 0), (2, Some 0)])"
    using period_sum_per_region [OF v4 a demo_period_frame [symmetric]]
    by (simp add: demo_rows_def)
  show ?thesis using 1 2 3 4 by simp
qed

lemma pad2_less_iff:
  assumes "a < 100" "b < 100"
  shows "pad2 a < pad2 b \<longleftrightarrow> a < b"
  using pad2_le_iff [OF assms] pad2_eq_iff [OF assms] by (auto simp add: less_le)

lemma fmt_md_le_iff:
  assumes "valid_date a" "valid_date b"
  shows "fmt_md a \<le> fmt_md b \<longleftrightarrow> md_le a b"
proof -
  have m: "d_month a < 100" "d_month b < 100"
    using assms by (simp_all add: valid_date_def)
  have d: "d_day a < 100" "d_day b < 100"
    using assms by (auto simp add: valid_date_def days_in_month_def split: if_splits)
  have "fmt_md a \<le> fmt_md b \<longleftrightarrow>
      (pad2 (d_month a) < pad2 (d_month b) \<or>
       pad2 (d_month a) = pad2 (d_month b) \<and> pad2 (d_day a) \<le> pad2 (d_day b))"
    unfolding fmt_md_def pad2_def by auto
  then show ?thesis
    by (simp add: pad2_less_iff [OF m] pad2_eq_iff [OF m] pad2_le_iff [OF d] md_le_def)
qed

text \<open>
  C2. For each continuous variable (avg_loss, qc_precip, avg_delivery, avg_runoff) and an
  averaged request, the read keeps the rows of the scenario whose month and day lie between
  those of the start and the end date and whose date lies between the two dates, adds the
  column of that variable up for each region, divides the sum by 10, gives 0 to a region
  without such rows, and multiplies by the multiplier of the variable. These rows are the
  polygons of the image make_map returns.
\<close>

theorem averaged_sum_per_region:
  fixes col :: "result_row \<Rightarrow> real option"
  assumes "var = ''avg_loss'' \<and> col = avg_loss \<and> m = 4.463 \<or>
           var = ''qc_precip'' \<and> col = qc_precip \<and> m = 1 / 25.4 \<or>
           var = ''avg_delivery'' \<and> col = avg_delivery \<and> m = 4.463 \<or>
           var = ''avg_runoff'' \<and> col = avg_runoff \<and> m = 1 / 25.4"
    and "averaged env"
    and "valid_date ts" "valid_date ts2" "\<forall>r \<in> set (results_by_huc12 conn). valid_date (valid r)"
    and "df = map (\<lambda>i. (simple_geom i,
                    Some (sum_list (non_null (map col
                            (filter (\<lambda>r. r_scenario r = scen \<and>
                                         md_le ts (valid r) \<and> md_le (valid r) ts2 \<and>
                                         date_le ts (valid r) \<and> date_le (valid r) ts2 \<and>
                                         r_huc_12 r = huc_12 i)
                               (results_by_huc12 conn)))) / 10 * m)))
               (filter (\<lambda>i. h_scenario i = h12 \<and> huclimiter h env i) (huc12 conn))"
  shows "V2MULTI var = Some m \<and>
         read_postgis conn h ts ts2 scen h12 var m env = (SelectAveraged, df) \<and>
         (scenarios conn scen = Some (h12, lb) \<and>
          make_map lib conn h ts ts2 scen var env = (Inr r, evs) \<longrightarrow> polygons r = df)"
proof -
  have cv: "var \<noteq> ''dt''" "var \<noteq> ''slp''" "column var = col" "V2MULTI var = Some m"
    using continuous_variable [OF assms(1)] by simp_all
  have rows: "averaged_rows conn scen ts ts2 =
      filter (\<lambda>r. r_scenario r = scen \<and> md_le ts (valid r) \<and> md_le (valid r) ts2 \<and>
                  date_le ts (valid r) \<and> date_le (valid r) ts2) (results_by_huc12 conn)"
    unfolding averaged_rows_def
    by (rule filter_cong [OF refl]) (simp add: fmt_md_le_iff assms(3-5))
  have rp: "read_postgis conn h ts ts2 scen h12 var m env = (SelectAveraged, df)"
    using cv(1,2) assms(2) unfolding assms(6) cv(3) [symmetric]
    by (simp add: read_postgis_def query_averaged_def rows
        joined_group [where f = "\<lambda>x. x / 10", OF coalesce_sql_sum_div])
  moreover have "scenarios conn scen = Some (h12, lb) \<and>
          make_map lib conn h ts ts2 scen var env = (Inr r, evs) \<longrightarrow> polygons r = df"
    using make_map_polygons [of lib conn h ts ts2 scen var env r evs h12 lb m] cv(4) rp
    by simp
  ultimately show ?thesis using cv(4) by simp
qed

lemma demo_averaged_frame:
  fixes col :: "result_row \<Rightarrow> real option"
  shows "map (\<lambda>i. (simple_geom i,
                    Some (sum_list (non_null (map col
                            (filter (\<lambda>r. r_scenario r = 0 \<and>
                                         md_le (Date 2019 6 1) (valid r) \<and>
                                         md_le (valid r) (Date 2020 6 1) \<and>
                                         date_le (Date 2019 6 1) (valid r) \<and>
                                         date_le (valid r) (Date 2020 6 1) \<and>
                                         r_huc_12 r = huc_12 i)
                               (results_by_huc12 demo_conn)))) / 10 * m)))
               (filter (\<lambda>i. h_scenario i = 0 \<and>
                             huclimiter None (demo_env\<lparr>huc := None, averaged := True\<rparr>) i)
                  (huc12 demo_conn))
         = [(1, Some (sum_list (non_null [col (demo_rows ! 0), col (demo_rows ! 2)]) / 10 * m)),
            (2, Some 0)]"
  by (simp add: demo_conn_def demo_regions_def demo_rows_def demo_env_def huclimiter_def
      date_le_def md_le_def)

theorem averaged_sum_per_region_witness:
  "read_postgis demo_conn None (Date 2019 6 1) (Date 2020 6 1) 0 0 ''avg_loss'' 4.463
     (demo_env\<lparr>huc := None, averaged := True\<rparr>)
   = (SelectAveraged, [(1, Some 5.3556), (2, Some 0)]) \<and>
   read_postgis demo_conn None (Date 2019 6 1) (Date 2020 6 1) 0 0 ''qc_precip'' (1 / 25.4)
     (demo_env\<lparr>huc := None, averaged := True\<rparr>)
   = (SelectAveraged, [(1, Some 0.1), (2, Some 0)]) \<and>
   read_postgis demo_conn None (Date 2019 6 1) (Date 2020 6 1) 0 0 ''avg_delivery'' 4.463
     (demo_env\<lparr>huc := None, averaged := True\<rparr>)
   = (SelectAveraged, [(1, Some 0.4463), (2, Some 0)]) \<and>
   read_postgis demo_conn None (Date 2019 6 1) (Date 2020 6 1) 0 0 ''avg_runoff'' (1 / 25.4)
     (demo_env\<lparr>huc := None, averaged := True\<rparr>)
   = (SelectAveraged, [(1, Some 0), (2, Some 0)])"
proof -
  let ?env = "demo_env\<lparr>huc := None, averaged := True\<rparr>"
  have a: "averaged ?env" by (simp add: demo_env_def)
  have d: "valid_date (Date 2019 6 1)" "valid_date (Date 2020 6 1)"
      "\<forall>r \<in> set (results_by_huc12 demo_conn). valid_date (valid r)"
    by (simp_all add: valid_date_def days_in_month_def demo_conn_def demo_rows_def)
  have v1: "''avg_loss'' = ''avg_loss'' \<and> avg_loss = avg_loss \<and> (4.463::real) = 4.463 \<or> X"
    and v2: "Y1 \<or> ''qc_precip'' = ''qc_precip'' \<and> qc_precip = qc_precip \<and>
               (1 / 25.4 :: real) = 1 / 25.4 \<or> X"
    and v3: "Y1 \<or> Y2 \<or> ''avg_delivery'' = ''avg_delivery'' \<and> avg_delivery = avg_delivery \<and>
               (4.463::real) = 4.463 \<or> X"
    and v4: "Y1 \<or> Y2 \<or> Y3 \<or> ''avg_runoff'' = ''avg_runoff'' \<and> avg_runoff = avg_runoff \<and>
               (1 / 25.4 :: real) = 1 / 25.4"
    for X Y1 Y2 Y3
    by simp_all
  have 1: "read_postgis demo_conn None (Date 2019 6 1) (Date 2020 6 1) 0 0 ''avg_loss'' 4.463 ?env
      = (SelectAveraged, [(1, Some 5.3556), (2, Some 0)])"
    using averaged_sum_per_region [OF v1 a d demo_averaged_frame [symmetric]]
    by (simp add: demo_rows_def)
  have 2: "read_postgis demo_conn None (Date 2019 6 1) (Date 2020 6 1) 0 0 ''qc_precip'' (1 / 25.4)
      ?env = (SelectAveraged, [(1, Some 0.1), (2, Some 0)])"
    using averaged_sum_per_region [OF v2 a d demo_averaged_frame [symmetric]]
    by (simp add: demo_rows_def)
  have 3: "read_postgis demo_conn None (Date 2019 6 1) (Date 2020 6 1) 0 0 ''avg_delivery'' 4.463
      ?env = (SelectAveraged, [(1, Some 0.4463), (2, Some 0)])"
    using averaged_sum_per_region [OF v3 a d demo_averaged_frame [symmetric]]
    by (simp add: demo_rows_def)
  have 4: "read_postgis demo_conn None (Date 2019 6 1) (Date 2020 6 1) 0 0 ''avg_runoff'' (1 / 25.4)
      ?env = (SelectAveraged, [(1, Some 0), (2, Some 0)])"
    using averaged_sum_per_region [OF v4 a d demo_averaged_frame [symmetric]]
    by (simp add: demo_rows_def)
  show ?thesis using 1 2 3 4 by simp
qed

subsection \<open>The cache key\<close>

lemma map_key_var_iff: "map_key h a b s v1 = map_key h a b s v2 \<longleftrightarrow> v1 = v2"
  by (simp add: map_key_def)

lemma map_key_scenario_iff: "map_key h a b s1 var = map_key h a b s2 var \<longleftrightarrow> s1 = s2"
  using str_int_inj by (auto simp add: map_key_def)

lemma map_key_end_iff:
  "valid_date b1 \<Longrightarrow> valid_date b2 \<Longrightarrow> map_key h a b1 s var = map_key h a b2 s var \<longleftrightarrow> b1 = b2"
  using fmt_Ymd_inj by (auto simp add: map_key_def)

lemma map_key_start_iff:
  "valid_date a1 \<Longrightarrow> valid_date a2 \<Longrightarrow> map_key h a1 b s var = map_key h a2 b s var \<longleftrightarrow> a1 = a2"
  using fmt_Ymd_inj by (auto simp add: map_key_def)

lemma map_key_huc_iff:
  "map_key h1 a b s var = map_key h2 a b s var \<longleftrightarrow> str_opt h1 = str_opt h2"
  by (simp add: map_key_def)

lemma map_key_inj:
  assumes "valid_date a1" "valid_date a2" "valid_date b1" "valid_date b2"
    and "CHR ''/'' \<notin> set v1" "CHR ''/'' \<notin> set v2"
    and "map_key h1 a1 b1 s1 v1 = map_key h2 a2 b2 s2 v2"
  shows "str_opt h1 = str_opt h2 \<and> a1 = a2 \<and> b1 = b2 \<and> s1 = s2 \<and> v1 = v2"
proof -
  let ?p1 = "''/auto/map.py/'' @ str_opt h1" and ?p2 = "''/auto/map.py/'' @ str_opt h2"
  let ?q1 = "?p1 @ CHR ''/'' # fmt_Ymd a1" and ?q2 = "?p2 @ CHR ''/'' # fmt_Ymd a2"
  let ?r1 = "?q1 @ CHR ''/'' # fmt_Ymd b1" and ?r2 = "?q2 @ CHR ''/'' # fmt_Ymd b2"
  let ?t1 = "?r1 @ CHR ''/'' # str_int s1" and ?t2 = "?r2 @ CHR ''/'' # str_int s2"
  have eq: "?t1 @ CHR ''/'' # v1 = ?t2 @ CHR ''/'' # v2"
    using assms(7) by (simp add: map_key_def)
  from split_at_last [OF assms(5,6) eq]
  have e1: "?t1 = ?t2" and v: "v1 = v2" by blast+
  from split_at_last [OF str_int_no_slash str_int_no_slash e1]
  have e2: "?r1 = ?r2" and s: "str_int s1 = str_int s2" by blast+
  from split_at_last [OF fmt_Ymd_no_slash fmt_Ymd_no_slash e2]
  have e3: "?q1 = ?q2" and b: "fmt_Ymd b1 = fmt_Ymd b2" by blast+
  from split_at_last [OF fmt_Ymd_no_slash fmt_Ymd_no_slash e3]
  have e4: "?p1 = ?p2" and a: "fmt_Ymd a1 = fmt_Ymd a2" by blast+
  from e4 have "str_opt h1 = str_opt h2" by simp
  moreover have "a1 = a2" using assms(1,2) a by (rule fmt_Ymd_inj)
  moreover have "b1 = b2" using assms(3,4) b by (rule fmt_Ymd_inj)
  moreover have "s1 = s2" using s by (rule str_int_inj)
  ultimately show ?thesis using v by simp
qed

lemma get_ts_ts2_valid:
  "get_ts_ts2 env = Inr (a, b) \<Longrightarrow> valid_date a \<and> valid_date b"
  by (auto simp add: get_ts_ts2_def Let_def split: sum.splits dest: mk_date_valid)

lemma get_mckey_map:
  "get_ts_ts2 env = Inr (a, b) \<Longrightarrow> \<not> overview env \<Longrightarrow>
   get_mckey f env = Inr (map_key (huc env) a b (scenario env) (v env))"
  by (simp add: get_mckey_def)

lemma get_mckey_overview:
  "get_ts_ts2 env = Inr (a, b) \<Longrightarrow> overview env \<Longrightarrow>
   get_mckey f env = Inr (overview_key f (huc env) (zoom env))"
  by (simp add: get_mckey_def)

lemma demo_dates:
  "get_ts_ts2 demo_env = Inr (Date 2020 6 1, Date 2020 6 1)"
  by (simp add: get_ts_ts2_def demo_env_def mk_date_def c_int_def days_in_month_def)

text \<open>
  C8. get_mckey is a function of the request alone. For two requests with valid dates that
  are not overview requests: when all but one of region, start date, end date, scenario and
  variable agree, the keys are equal exactly when the remaining one agrees too, a region
  counting through its text (a missing region is written None, as the region None is);
  and when neither variable contains a slash, the keys are equal exactly when region text,
  dates, scenario and variable are all equal. The key of an overview request is made of
  the region and the zoom alone.
\<close>

theorem get_mckey_sensitivity:
  assumes "get_ts_ts2 e1 = Inr (a1, b1)" "get_ts_ts2 e2 = Inr (a2, b2)"
  shows "(e1 = e2 \<longrightarrow> get_mckey f e1 = get_mckey f e2) \<and>
         (\<not> overview e1 \<and> \<not> overview e2 \<longrightarrow>
            (a1 = a2 \<and> b1 = b2 \<and> scenario e1 = scenario e2 \<and> v e1 = v e2 \<longrightarrow>
               (get_mckey f e1 = get_mckey f e2 \<longleftrightarrow> str_opt (huc e1) = str_opt (huc e2))) \<and>
            (huc e1 = huc e2 \<and> b1 = b2 \<and> scenario e1 = scenario e2 \<and> v e1 = v e2 \<longrightarrow>
               (get_mckey f e1 = get_mckey f e2 \<longleftrightarrow> a1 = a2)) \<and>
            (huc e1 = huc e2 \<and> a1 = a2 \<and> scenario e1 = scenario e2 \<and> v e1 = v e2 \<longrightarrow>
               (get_mckey f e1 = get_mckey f e2 \<longleftrightarrow> b1 = b2)) \<and>
            (huc e1 = huc e2 \<and> a1 = a2 \<and> b1 = b2 \<and> v e1 = v e2 \<longrightarrow>
               (get_mckey f e1 = get_mckey f e2 \<longleftrightarrow> scenario e1 = scenario e2)) \<and>
            (huc e1 = huc e2 \<and> a1 = a2 \<and> b1 = b2 \<and> scenario e1 = scenario e2 \<longrightarrow>
               (get_mckey f e1 = get_mckey f e2 \<longleftrightarrow> v e1 = v e2)) \<and>
            (CHR ''/'' \<notin> set (v e1) \<and> CHR ''/'' \<notin> set (v e2) \<longrightarrow>
               (get_mckey f e1 = get_mckey f e2 \<longleftrightarrow>
                  str_opt (huc e1) = str_opt (huc e2) \<and> a1 = a2 \<and> b1 = b2 \<and>
                  scenario e1 = scenario e2 \<and> v e1 = v e2))) \<and>
         (overview e1 \<longrightarrow> get_mckey f e1 = Inr (overview_key f (huc e1) (zoom e1)))"
proof -
  have va: "valid_date a1" "valid_date b1" "valid_date a2" "valid_date b2"
    using get_ts_ts2_valid [OF assms(1)] get_ts_ts2_valid [OF assms(2)] by simp_all
  have plain: "\<not> overview e1 \<and> \<not> overview e2 \<longrightarrow>
      (get_mckey f e1 = get_mckey f e2 \<longleftrightarrow>
         map_key (huc e1) a1 b1 (scenario e1) (v e1) = map_key (huc e2) a2 b2 (scenario e2) (v e2))"
    using get_mckey_map [OF assms(1)] get_mckey_map [OF assms(2)] by simp
  have full: "CHR ''/'' \<notin> set (v e1) \<and> CHR ''/'' \<notin> set (v e2) \<longrightarrow>
      (map_key (huc e1) a1 b1 (scenario e1) (v e1) = map_key (huc e2) a2 b2 (scenario e2) (v e2)
       \<longleftrightarrow> str_opt (huc e1) = str_opt (huc e2) \<and> a1 = a2 \<and> b1 = b2 \<and>
             scenario e1 = scenario e2 \<and> v e1 = v e2)"
  proof (intro impI iffI)
    assume "CHR ''/'' \<notin> set (v e1) \<and> CHR ''/'' \<notin> set (v e2)"
      and "map_key (huc e1) a1 b1 (scenario e1) (v e1) = map_key (huc e2) a2 b2 (scenario e2) (v e2)"
    then show "str_opt (huc e1) = str_opt (huc e2) \<and> a1 = a2 \<and> b1 = b2 \<and>
             scenario e1 = scenario e2 \<and> v e1 = v e2"
      using map_key_inj [OF va(1) va(3) va(2) va(4)] by blast
  next
    assume "str_opt (huc e1) = str_opt (huc e2) \<and> a1 = a2 \<and> b1 = b2 \<and>
             scenario e1 = scenario e2 \<and> v e1 = v e2"
    then show "map_key (huc e1) a1 b1 (scenario e1) (v e1)
        = map_key (huc e2) a2 b2 (scenario e2) (v e2)"
      by (simp add: map_key_def)
  qed
  have single: "\<not> overview e1 \<and> \<not> overview e2 \<longrightarrow>
            (a1 = a2 \<and> b1 = b2 \<and> scenario e1 = scenario e2 \<and> v e1 = v e2 \<longrightarrow>
               (get_mckey f e1 = get_mckey f e2 \<longleftrightarrow> str_opt (huc e1) = str_opt (huc e2))) \<and>
            (huc e1 = huc e2 \<and> b1 = b2 \<and> scenario e1 = scenario e2 \<and> v e1 = v e2 \<longrightarrow>
               (get_mckey f e1 = get_mckey f e2 \<longleftrightarrow> a1 = a2)) \<and>
            (huc e1 = huc e2 \<and> a1 = a2 \<and> scenario e1 = scenario e2 \<and> v e1 = v e2 \<longrightarrow>
               (get_mckey f e1 = get_mckey f e2 \<longleftrightarrow> b1 = b2)) \<and>
            (huc e1 = huc e2 \<and> a1 = a2 \<and> b1 = b2 \<and> v e1 = v e2 \<longrightarrow>
               (get_mckey f e1 = get_mckey f e2 \<longleftrightarrow> scenario e1 = scenario e2)) \<and>
            (huc e1 = huc e2 \<and> a1 = a2 \<and> b1 = b2 \<and> scenario e1 = scenario e2 \<longrightarrow>
               (get_mckey f e1 = get_mckey f e2 \<longleftrightarrow> v e1 = v e2))"
    using plain
    by (simp add: map_key_huc_iff map_key_start_iff map_key_end_iff map_key_scenario_iff
        map_key_var_iff va)
  have ov: "overview e1 \<longrightarrow> get_mckey f e1 = Inr (overview_key f (huc e1) (zoom e1))"
    using get_mckey_overview [OF assms(1)] by simp
  show ?thesis using plain full single ov by simp
qed

theorem get_mckey_sensitivity_witness:
  "get_mckey demo_float_str demo_env \<noteq> get_mckey demo_float_str (demo_env\<lparr>scenario := 1\<rparr>) \<and>
   get_mckey demo_float_str demo_env \<noteq> get_mckey demo_float_str (demo_env\<lparr>v := ''qc_precip''\<rparr>) \<and>
   get_mckey demo_float_str (demo_env\<lparr>overview := True\<rparr>) = Inr ''/auto/map.py/070801050306/10.0''"
proof -
  have d1: "get_ts_ts2 (demo_env\<lparr>scenario := 1\<rparr>) = Inr (Date 2020 6 1, Date 2020 6 1)"
    and d2: "get_ts_ts2 (demo_env\<lparr>v := ''qc_precip''\<rparr>) = Inr (Date 2020 6 1, Date 2020 6 1)"
    and d3: "get_ts_ts2 (demo_env\<lparr>overview := True\<rparr>) = Inr (Date 2020 6 1, Date 2020 6 1)"
    by (simp_all add: get_ts_ts2_def demo_env_def mk_date_def c_int_def days_in_month_def)
  have k: "overview_key demo_float_str (Some ''070801050306'') 10 = ''/auto/map.py/070801050306/10.0''"
    by (simp add: overview_key_def demo_float_str_def str_opt_def str_int_def str_nat.simps
        digit_def)
  have "get_mckey demo_float_str demo_env \<noteq> get_mckey demo_float_str (demo_env\<lparr>scenario := 1\<rparr>)"
    using get_mckey_sensitivity [OF demo_dates d1, of demo_float_str]
    by (simp add: demo_env_def)
  moreover have "get_mckey demo_float_str demo_env
      \<noteq> get_mckey demo_float_str (demo_env\<lparr>v := ''qc_precip''\<rparr>)"
    using get_mckey_sensitivity [OF demo_dates d2, of demo_float_str]
    by (simp add: demo_env_def)
  moreover have "get_mckey demo_float_str (demo_env\<lparr>overview := True\<rparr>)
      = Inr ''/auto/map.py/070801050306/10.0''"
    using get_mckey_sensitivity [OF d3 d3, of demo_float_str] k
    by (simp add: demo_env_def)
  ultimately show ?thesis by simp
qed

theorem get_mckey_collisions:
  "huc (demo_env\<lparr>huc := None\<rparr>) \<noteq> huc (demo_env\<lparr>huc := Some ''None''\<rparr>) \<and>
   get_mckey demo_float_str (demo_env\<lparr>huc := None\<rparr>)
     = get_mckey demo_float_str (demo_env\<lparr>huc := Some ''None''\<rparr>) \<and>
   get_mckey demo_float_str
     (demo_env\<lparr>huc := Some ''x'', day2 := Some 2, scenario := 20200603, v := ''1/z''\<rparr>)
     = get_mckey demo_float_str
         (demo_env\<lparr>huc := Some ''x/20200601'', day := 2, day2 := Some 3, scenario := 1, v := ''z''\<rparr>)"
  by (simp add: get_mckey_def get_ts_ts2_def demo_env_def mk_date_def c_int_def
      days_in_month_def map_key_def str_opt_def fmt_Ymd_def pad2_def digit_def
      str_int_def str_nat.simps)

end
